theory Spec2Isabelle
  imports Main "HOL-Library.Word"
begin

section \<open>Errors raised by the storage engine\<close>

text \<open>Every exception the modelled code can raise is a value of this type; a function
  that can raise returns \<open>error + 'a\<close> with \<open>Inl\<close> for the exception.\<close>

datatype error =
    PageError
  | LRUError
  | LockConflictError
  | BPlusTreeError
  | NotImplementedError
  | AssertionError
  | IndexError
  | ValueError
  | OverflowError
  | FileNotFoundError
  | AttributeError
  | TypeError
  | UnpicklingError
  | Diverges

section \<open>Slotted page (storage/slotted\_page.py)\<close>

type_synonym byte = "8 word"

definition PAGE_SIZE :: nat where
  "PAGE_SIZE = 8 * 1024"

record PageHeader =
  lsn :: int
  flags :: int
  reserved :: int
  free_space_start :: int
  free_space_end :: int

text \<open>\<open>RecordState\<close> is a class of integer constants in the source; a slot stores the
  plain integer.\<close>

definition UNUSED :: nat where "UNUSED = 0"
definition NORMAL :: nat where "NORMAL = 1"
definition DEAD :: nat where "DEAD = 2"

record Slot =
  offset :: nat
  length_slot :: nat
  state :: nat

record Page =
  page_header :: PageHeader
  slot_directory :: "Slot list"
  records :: "byte list"

text \<open>\<open>BaseStructure.size\<close>: eight bytes per serializable field.\<close>

definition PageHeader_size :: nat where
  "PageHeader_size = 5 * 8"

definition Slot_size :: nat where
  "Slot_size = 3 * 8"

definition PageHeader_init :: PageHeader where
  "PageHeader_init =
     \<lparr>lsn = 0, flags = 0, reserved = 0, free_space_start = 0, free_space_end = 0\<rparr>"

definition Page_init :: Page where
  "Page_init = \<lparr>page_header = PageHeader_init, slot_directory = [], records = []\<rparr>"

definition total_record_size :: "Page \<Rightarrow> nat" where
  "total_record_size p = length (records p)"

definition total_slot_directory_size :: "Page \<Rightarrow> nat" where
  "total_slot_directory_size p = length (slot_directory p) * Slot_size"

definition allocate_slot :: "Page \<Rightarrow> byte list \<Rightarrow> Slot option" where
  "allocate_slot p record =
     (let current_slot_num = length (slot_directory p);
          total_slot_size = (current_slot_num + 1) * Slot_size;
          total_record_size' = total_record_size p + length record;
          total_page_size = PageHeader_size + total_slot_size + total_record_size'
      in if total_page_size \<ge> PAGE_SIZE then None
         else Some \<lparr>offset = total_record_size p, length_slot = length record,
                    state = UNUSED\<rparr>)"

definition set_header :: "Page \<Rightarrow> int \<Rightarrow> Page" where
  "set_header p l =
     p\<lparr>page_header := (page_header p)
         \<lparr>lsn := l,
          free_space_start := int (PageHeader_size + total_slot_directory_size p),
          free_space_end := int PAGE_SIZE - int (length (records p))\<rparr>\<rparr>"

text \<open>The page is a mutable object: every operation returns the page as it is left
  behind together with the returned value or the raised exception.\<close>

definition insert_page :: "Page \<Rightarrow> byte list \<Rightarrow> Page \<times> (error + nat)" where
  "insert_page p record =
     (case allocate_slot p record of
        None \<Rightarrow> (p, Inl PageError)
      | Some slot \<Rightarrow>
          (let p' = p\<lparr>slot_directory := slot_directory p @ [slot\<lparr>state := NORMAL\<rparr>],
                      records := records p @ record\<rparr>
           in (p', Inr (length (slot_directory p') - 1))))"

definition delete_page :: "Page \<Rightarrow> nat \<Rightarrow> Page \<times> (error + bool)" where
  "delete_page p sid =
     (if sid \<ge> length (slot_directory p) then (p, Inl PageError)
      else (p\<lparr>slot_directory :=
                (slot_directory p)[sid := (slot_directory p ! sid)\<lparr>state := DEAD\<rparr>]\<rparr>,
            Inr True))"

definition select_page :: "Page \<Rightarrow> nat \<Rightarrow> error + byte list" where
  "select_page p sid =
     (if sid \<ge> length (slot_directory p) then Inl PageError
      else (let slot = slot_directory p ! sid
            in if state slot \<noteq> NORMAL then Inr []
               else Inr (take (length_slot slot) (drop (offset slot) (records p)))))"

definition update_page :: "Page \<Rightarrow> nat \<Rightarrow> byte list \<Rightarrow> Page \<times> (error + nat)" where
  "update_page p sid record =
     (if sid \<ge> length (slot_directory p) then (p, Inl IndexError)
      else
        (let slot = slot_directory p ! sid
         in if length record \<le> length_slot slot then
              (p\<lparr>records := take (offset slot) (records p) @ record @
                              drop (offset slot + length record) (records p),
                 slot_directory := (slot_directory p)
                    [sid := slot\<lparr>length_slot := length record, state := NORMAL\<rparr>]\<rparr>,
               Inr sid)
            else
              (let old_state = state slot;
                   (p1, r1) = delete_page p sid
               in case r1 of
                    Inl e \<Rightarrow>
                      (p1\<lparr>slot_directory := (slot_directory p1)
                          [sid := (slot_directory p1 ! sid)\<lparr>state := old_state\<rparr>]\<rparr>, Inl e)
                  | Inr _ \<Rightarrow>
                      (let (p2, r2) = insert_page p1 record
                       in case r2 of
                            Inl e \<Rightarrow>
                              (p2\<lparr>slot_directory := (slot_directory p2)
                                  [sid := (slot_directory p2 ! sid)\<lparr>state := old_state\<rparr>]\<rparr>,
                               Inl e)
                          | Inr new_sid \<Rightarrow> (p2, Inr new_sid)))))"

subsection \<open>Serialization\<close>

text \<open>\<open>int.to_bytes(value, 8, 'little', signed=False)\<close> raises \<open>OverflowError\<close> for a
  negative value and for one that does not fit eight bytes.\<close>

fun le_bytes :: "nat \<Rightarrow> int \<Rightarrow> byte list" where
  "le_bytes 0 v = []"
| "le_bytes (Suc n) v = word_of_int v # le_bytes n (v div 256)"

definition uint8_to_bytes :: "int \<Rightarrow> error + byte list" where
  "uint8_to_bytes v = (if v < 0 \<or> v \<ge> 2 ^ 64 then Inl OverflowError else Inr (le_bytes 8 v))"

fun bytes_to_uint8 :: "byte list \<Rightarrow> int" where
  "bytes_to_uint8 [] = 0"
| "bytes_to_uint8 (b # bs) = uint b + 256 * bytes_to_uint8 bs"

text \<open>\<open>BaseStructure.serialize\<close> over the values of the serializable fields, in order.\<close>

fun serialize_fields :: "int list \<Rightarrow> error + byte list" where
  "serialize_fields [] = Inr []"
| "serialize_fields (v # vs) =
     (case uint8_to_bytes v of
        Inl e \<Rightarrow> Inl e
      | Inr b \<Rightarrow> (case serialize_fields vs of Inl e \<Rightarrow> Inl e | Inr bs \<Rightarrow> Inr (b @ bs)))"

definition PageHeader_serialize :: "PageHeader \<Rightarrow> error + byte list" where
  "PageHeader_serialize h =
     serialize_fields [lsn h, flags h, reserved h, free_space_start h, free_space_end h]"

definition Slot_serialize :: "Slot \<Rightarrow> error + byte list" where
  "Slot_serialize s =
     serialize_fields [int (offset s), int (length_slot s), int (state s)]"

text \<open>\<open>BaseStructure.deserialize\<close>: the buffer must have the size of the structure; field
  number \<open>i\<close> is read from the eight bytes at position \<open>8 * i\<close>.\<close>

definition field_at :: "byte list \<Rightarrow> nat \<Rightarrow> int" where
  "field_at buff position = bytes_to_uint8 (take 8 (drop position buff))"

definition PageHeader_deserialize :: "byte list \<Rightarrow> error + PageHeader" where
  "PageHeader_deserialize buff =
     (if length buff \<noteq> PageHeader_size then Inl AssertionError
      else Inr \<lparr>lsn = field_at buff 0, flags = field_at buff 8, reserved = field_at buff 16,
                free_space_start = field_at buff 24, free_space_end = field_at buff 32\<rparr>)"

definition Slot_deserialize :: "byte list \<Rightarrow> error + Slot" where
  "Slot_deserialize buff =
     (if length buff \<noteq> Slot_size then Inl AssertionError
      else Inr \<lparr>offset = nat (field_at buff 0), length_slot = nat (field_at buff 8),
                state = nat (field_at buff 16)\<rparr>)"

fun serialize_slots :: "Slot list \<Rightarrow> error + byte list" where
  "serialize_slots [] = Inr []"
| "serialize_slots (s # ss) =
     (case Slot_serialize s of
        Inl e \<Rightarrow> Inl e
      | Inr b \<Rightarrow> (case serialize_slots ss of Inl e \<Rightarrow> Inl e | Inr bs \<Rightarrow> Inr (b @ bs)))"

definition serialize_page :: "Page \<Rightarrow> error + byte list" where
  "serialize_page p =
     (let free_space_size = free_space_end (page_header p) - free_space_start (page_header p)
      in if int PAGE_SIZE \<noteq> int PageHeader_size + int (total_slot_directory_size p)
                              + free_space_size + int (total_record_size p)
         then Inl AssertionError
         else
           (case serialize_slots (slot_directory p) of
              Inl e \<Rightarrow> Inl e
            | Inr slot_directory_bytes \<Rightarrow>
                (case PageHeader_serialize (page_header p) of
                   Inl e \<Rightarrow> Inl e
                 | Inr header_bytes \<Rightarrow>
                     if free_space_size < 0 then Inl ValueError
                     else Inr (header_bytes @ slot_directory_bytes @
                               replicate (nat free_space_size) 0 @ records p))))"

text \<open>\<open>range(start, stop, step)\<close> for a positive step.\<close>

definition range_step :: "nat \<Rightarrow> nat \<Rightarrow> nat \<Rightarrow> nat list" where
  "range_step start stop step =
     map (\<lambda>i. start + i * step) [0..<(stop - start + step - 1) div step]"

fun deserialize_slots :: "byte list \<Rightarrow> nat list \<Rightarrow> error + Slot list" where
  "deserialize_slots buff [] = Inr []"
| "deserialize_slots buff (slot_offset # rest) =
     (case Slot_deserialize (take Slot_size (drop slot_offset buff)) of
        Inl e \<Rightarrow> Inl e
      | Inr slot \<Rightarrow>
          (case deserialize_slots buff rest of
             Inl e \<Rightarrow> Inl e
           | Inr slots \<Rightarrow> Inr (slot # slots)))"

definition deserialize_page :: "byte list \<Rightarrow> error + Page" where
  "deserialize_page buff =
     (case PageHeader_deserialize (take PageHeader_size buff) of
        Inl e \<Rightarrow> Inl e
      | Inr header \<Rightarrow>
          (case deserialize_slots buff
                  (range_step PageHeader_size (nat (free_space_start header)) Slot_size) of
             Inl e \<Rightarrow> Inl e
           | Inr slots \<Rightarrow>
               Inr \<lparr>page_header = header, slot_directory = slots,
                    records = drop (nat (free_space_end header)) buff\<rparr>))"

subsection \<open>Representable and well-formed pages\<close>

text \<open>Auxiliary notions for the proofs about serialization: values that fit eight bytes,
  the bytes of a slot and of a header, and what every page built by page operations
  satisfies (\<open>vs\<close> lists the bytes last written for each slot).\<close>

definition fits :: "int \<Rightarrow> bool" where
  "fits v = (0 \<le> v \<and> v < 2 ^ 64)"

definition slot_bytes :: "Slot \<Rightarrow> byte list" where
  "slot_bytes s = le_bytes 8 (int (offset s)) @ le_bytes 8 (int (length_slot s)) @
                  le_bytes 8 (int (state s))"

definition slot_fits :: "Slot \<Rightarrow> bool" where
  "slot_fits s = (fits (int (offset s)) \<and> fits (int (length_slot s)) \<and> fits (int (state s)))"

definition page_inv :: "Page \<Rightarrow> byte list list \<Rightarrow> bool" where
  "page_inv p vs =
     (length vs = length (slot_directory p)
      \<and> PageHeader_size + length (slot_directory p) * Slot_size + length (records p) < PAGE_SIZE
      \<and> (\<forall>i < length (slot_directory p).
            offset (slot_directory p ! i) + length_slot (slot_directory p ! i)
              \<le> length (records p)
          \<and> state (slot_directory p ! i) \<le> 2
          \<and> take (length_slot (slot_directory p ! i))
                (drop (offset (slot_directory p ! i)) (records p)) = vs ! i)
      \<and> (\<forall>j < length (slot_directory p). \<forall>i < j.
            offset (slot_directory p ! i) + length_slot (slot_directory p ! i)
              \<le> offset (slot_directory p ! j))
      \<and> flags (page_header p) = 0 \<and> reserved (page_header p) = 0)"

definition header_bytes :: "PageHeader \<Rightarrow> byte list" where
  "header_bytes h = le_bytes 8 (lsn h) @ le_bytes 8 (flags h) @ le_bytes 8 (reserved h) @
                    le_bytes 8 (free_space_start h) @ le_bytes 8 (free_space_end h)"

definition header_fits :: "PageHeader \<Rightarrow> bool" where
  "header_fits h = (fits (lsn h) \<and> fits (flags h) \<and> fits (reserved h) \<and>
                    fits (free_space_start h) \<and> fits (free_space_end h))"

subsection \<open>Sequences of page operations\<close>

datatype page_op = Insert "byte list" | Delete nat | Update nat "byte list"

text \<open>An operation that raises leaves the page behind as the exception found it.\<close>

fun apply_op :: "Page \<Rightarrow> page_op \<Rightarrow> Page" where
  "apply_op p (Insert r) = fst (insert_page p r)"
| "apply_op p (Delete sid) = fst (delete_page p sid)"
| "apply_op p (Update sid r) = fst (update_page p sid r)"

text \<open>The bytes last written for each slot: an insert writes the bytes of the slot it
  creates, an update in place overwrites those of its slot, and an update that moves the
  record writes the bytes of the new slot.\<close>

fun written_op :: "Page \<Rightarrow> page_op \<Rightarrow> byte list list \<Rightarrow> byte list list" where
  "written_op p (Insert r) vs =
     (case snd (insert_page p r) of Inr sid \<Rightarrow> vs @ [r] | Inl e \<Rightarrow> vs)"
| "written_op p (Delete sid) vs = vs"
| "written_op p (Update sid r) vs =
     (case snd (update_page p sid r) of
        Inr new_sid \<Rightarrow> if new_sid = sid then vs[sid := r] else vs @ [r]
      | Inl e \<Rightarrow> vs)"

fun run_ops :: "Page \<Rightarrow> byte list list \<Rightarrow> page_op list \<Rightarrow> Page \<times> byte list list" where
  "run_ops p vs [] = (p, vs)"
| "run_ops p vs (x # xs) = run_ops (apply_op p x) (written_op p x vs) xs"


section \<open>LRU cache of the buffer pool (storage/lru.py)\<close>

text \<open>The doubly linked list between the dummy \<open>head\<close> and \<open>tail\<close> nodes is the list
  \<open>nodes\<close>, least recently used first. The dictionary \<open>cache\<close> of the source maps each key to
  its node in that list; \<open>put\<close> and \<open>get\<close> keep both in step, so membership in the dictionary
  is membership of the key in \<open>nodes\<close> and \<open>len(self.cache)\<close> is its length.\<close>

record ('k, 'v) LRUNode =
  key :: 'k
  val :: 'v
  pinned :: bool

record ('k, 'v) LRUCache =
  capacity :: nat
  nodes :: "('k, 'v) LRUNode list"
  evicted :: "'k \<rightharpoonup> 'v"

definition LRUCache_init :: "nat \<Rightarrow> ('k, 'v) LRUCache" where
  "LRUCache_init cap = \<lparr>capacity = cap, nodes = [], evicted = Map.empty\<rparr>"

definition in_cache :: "('k, 'v) LRUCache \<Rightarrow> 'k \<Rightarrow> bool" where
  "in_cache c k = (k \<in> set (map key (nodes c)))"

text \<open>\<open>_remove\<close> unlinks one node; nodes are identified by their key.\<close>

definition remove_node :: "'k \<Rightarrow> ('k, 'v) LRUNode list \<Rightarrow> ('k, 'v) LRUNode list" where
  "remove_node k ns = filter (\<lambda>n. key n \<noteq> k) ns"

text \<open>The eviction walk: start at \<open>head.next\<close> and skip pinned nodes. The dummy tail is not
  pinned, so the walk stops there at the latest; \<open>None\<close> stands for the tail.\<close>

fun first_unpinned :: "('k, 'v) LRUNode list \<Rightarrow> ('k, 'v) LRUNode option" where
  "first_unpinned [] = None"
| "first_unpinned (n # ns) = (if pinned n then first_unpinned ns else Some n)"

definition put :: "('k, 'v) LRUCache \<Rightarrow> 'k \<Rightarrow> 'v \<Rightarrow> ('k, 'v) LRUCache \<times> (error + unit)" where
  "put c k v =
     (let ns1 = (if in_cache c k then remove_node k (nodes c) else nodes c);
          node = \<lparr>key = k, val = v, pinned = False\<rparr>;
          ns2 = ns1 @ [node]
      in if length ns2 > capacity c then
           (case first_unpinned ns2 of
              None \<Rightarrow> (c\<lparr>nodes := remove_node k ns2\<rparr>, Inl LRUError)
            | Some evicted_node \<Rightarrow>
                (c\<lparr>nodes := remove_node (key evicted_node) ns2,
                   evicted := (evicted c)(key evicted_node \<mapsto> val evicted_node)\<rparr>,
                 Inr ()))
         else (c\<lparr>nodes := ns2\<rparr>, Inr ()))"

definition get :: "('k, 'v) LRUCache \<Rightarrow> 'k \<Rightarrow> ('k, 'v) LRUCache \<times> 'v option" where
  "get c k =
     (case find (\<lambda>n. key n = k) (nodes c) of
        Some node \<Rightarrow> (c\<lparr>nodes := remove_node k (nodes c) @ [node]\<rparr>, Some (val node))
      | None \<Rightarrow> (c, None))"

definition pin :: "('k, 'v) LRUCache \<Rightarrow> 'k \<Rightarrow> ('k, 'v) LRUCache \<times> (error + unit)" where
  "pin c k =
     (if \<not> in_cache c k then (c, Inl LRUError)
      else (c\<lparr>nodes := map (\<lambda>n. if key n = k then n\<lparr>pinned := True\<rparr> else n) (nodes c)\<rparr>,
            Inr ()))"

definition unpin :: "('k, 'v) LRUCache \<Rightarrow> 'k \<Rightarrow> ('k, 'v) LRUCache \<times> (error + unit)" where
  "unpin c k =
     (if \<not> in_cache c k then (c, Inl LRUError)
      else (c\<lparr>nodes := map (\<lambda>n. if key n = k then n\<lparr>pinned := False\<rparr> else n) (nodes c)\<rparr>,
            Inr ()))"

section \<open>Lock manager (storage/lock/lock.py)\<close>

datatype lock_mode = S | X

record lock_entry =
  lock_mode :: lock_mode
  holders :: "int list"

type_synonym 'r lock_table = "'r \<rightharpoonup> lock_entry"

definition if_only_duplicated_elements :: "int list \<Rightarrow> int \<Rightarrow> bool" where
  "if_only_duplicated_elements l e = (set l = {e})"

text \<open>One attempt under the mutex: the lock table afterwards and whether the lock was
  granted.\<close>

definition acquire_lock_once ::
  "'r lock_table \<Rightarrow> 'r \<Rightarrow> int \<Rightarrow> lock_mode \<Rightarrow> 'r lock_table \<times> bool" where
  "acquire_lock_once locks resource xid mode =
     (case locks resource of
        None \<Rightarrow> (locks(resource \<mapsto> \<lparr>lock_mode = mode, holders = [xid]\<rparr>), True)
      | Some e \<Rightarrow>
          if lock_mode e = S \<and> mode = S then
            (locks(resource \<mapsto> e\<lparr>holders := holders e @ [xid]\<rparr>), True)
          else if lock_mode e = S \<and> mode = X then
            (if if_only_duplicated_elements (holders e) xid then
               (locks(resource \<mapsto> e\<lparr>lock_mode := X, holders := holders e @ [xid]\<rparr>), True)
             else (locks, False))
          else if lock_mode e = X \<and> mode = S then
            (if if_only_duplicated_elements (holders e) xid then
               (locks(resource \<mapsto> e\<lparr>holders := holders e @ [xid]\<rparr>), True)
             else (locks, False))
          else (locks, False))"

definition lock_wait_timeout :: nat where
  "lock_wait_timeout = 1"

text \<open>The retry loop of \<open>acquire_lock\<close>. \<open>time.sleep(lock_wait_timeout)\<close> adds the timeout
  to the time the caller has slept, \<open>slept\<close>. While the caller sleeps the mutex is free and
  other threads may change the lock table: \<open>env n\<close> is what they do to it during the sleep
  that follows failed attempt number \<open>n\<close>.\<close>

function acquire_loop ::
  "(nat \<Rightarrow> 'r lock_table \<Rightarrow> 'r lock_table) \<Rightarrow> 'r lock_table \<Rightarrow> 'r \<Rightarrow> int \<Rightarrow> lock_mode
     \<Rightarrow> bool \<Rightarrow> nat \<Rightarrow> nat \<Rightarrow> 'r lock_table \<times> bool \<times> nat" where
  "acquire_loop env locks resource xid mode success try_count slept =
     (if \<not> success \<and> try_count < 2 then
        (let (locks', success') = acquire_lock_once locks resource xid mode
         in if \<not> success' then
              acquire_loop env (env try_count locks') resource xid mode success'
                (try_count + 1) (slept + lock_wait_timeout)
            else acquire_loop env locks' resource xid mode success' try_count slept)
      else (locks, success, slept))"
  by pat_completeness auto
termination
  by (relation "measure (\<lambda>(env, locks, resource, xid, mode, success, try_count, slept).
        if success then 0 else 3 - try_count)") auto

text \<open>\<open>acquire_lock\<close>: the lock table it leaves, the time it slept, and whether it returned
  or raised.\<close>

definition acquire_lock ::
  "(nat \<Rightarrow> 'r lock_table \<Rightarrow> 'r lock_table) \<Rightarrow> 'r lock_table \<Rightarrow> 'r \<Rightarrow> int \<Rightarrow> lock_mode
     \<Rightarrow> 'r lock_table \<times> nat \<times> (error + unit)" where
  "acquire_lock env locks resource xid mode =
     (let (locks', success, slept) = acquire_loop env locks resource xid mode False 0 0
      in if \<not> success then (locks', slept, Inl LockConflictError)
         else (locks', slept, Inr ()))"

definition release_lock :: "'r lock_table \<Rightarrow> 'r \<Rightarrow> int \<Rightarrow> 'r lock_table" where
  "release_lock locks resource xid =
     (case locks resource of
        None \<Rightarrow> locks
      | Some e \<Rightarrow>
          if xid \<in> set (holders e) then
            (let hs = remove1 xid (holders e)
             in if hs = [] then locks(resource := None)
                else locks(resource \<mapsto> e\<lparr>holders := hs\<rparr>))
          else locks)"

text \<open>Every entry of a lock table built by \<open>acquire_lock\<close> and \<open>release_lock\<close> has at
  least one holder: an entry is created with one, and removed with its last.\<close>

definition locks_wf :: "'r lock_table \<Rightarrow> bool" where
  "locks_wf locks = (\<forall>r e. locks r = Some e \<longrightarrow> holders e \<noteq> [])"

section \<open>Access-path selection (sql/optimizier/planner.py)\<close>

datatype cvalue = IntValue int | StrValue string

text \<open>A side of a condition is a \<open>TableColumn(table_name, column_name)\<close> or the value of a
  constant.\<close>

datatype operand = TableColumn string string | Const cvalue

fun is_TableColumn :: "operand \<Rightarrow> bool" where
  "is_TableColumn (TableColumn t c) = True"
| "is_TableColumn (Const v) = False"

fun column_name :: "operand \<Rightarrow> string" where
  "column_name (TableColumn t c) = c"
| "column_name (Const v) = []"

record Condition =
  sign :: string
  left :: operand
  right :: operand

text \<open>A row of the index catalog.\<close>

record CatalogIndexForm =
  index_name :: string
  index_table_name :: string
  index_columns :: "string list"

record ScanOperator =
  table_name :: string
  columns :: "string list"
  condition :: "Condition option"

datatype physical_scan =
    TableScan string "Condition option"
  | IndexScan string Condition
  | CoveredIndexScan string Condition

text \<open>The inner loop over the index columns, with its \<open>break\<close>.\<close>

fun match_index_columns :: "string \<Rightarrow> string list \<Rightarrow> bool \<Rightarrow> bool" where
  "match_index_columns cn [] matched = matched"
| "match_index_columns cn (index_column # rest) matched =
     (if cn \<noteq> index_column then False else match_index_columns cn rest matched)"

fun match_condition_columns :: "operand list \<Rightarrow> string list \<Rightarrow> bool \<Rightarrow> bool" where
  "match_condition_columns [] cols matched = matched"
| "match_condition_columns (condition_column # rest) cols matched =
     match_condition_columns rest cols
       (match_index_columns (column_name condition_column) cols matched)"

definition candidate_indexes ::
  "operand list \<Rightarrow> CatalogIndexForm list \<Rightarrow> CatalogIndexForm list" where
  "candidate_indexes condition_columns results =
     filter (\<lambda>form. match_condition_columns condition_columns (index_columns form) True)
       results"

fun shortest_index :: "CatalogIndexForm \<Rightarrow> CatalogIndexForm list \<Rightarrow> CatalogIndexForm" where
  "shortest_index shortest [] = shortest"
| "shortest_index shortest (candidate_index # rest) =
     shortest_index
       (if length (index_columns candidate_index) < length (index_columns shortest)
        then candidate_index else shortest) rest"

definition implement_scan ::
  "CatalogIndexForm list \<Rightarrow> ScanOperator \<Rightarrow> error + physical_scan" where
  "implement_scan catalog_index node =
     (let results = filter (\<lambda>r. index_table_name r = table_name node) catalog_index
      in case condition node of
           None \<Rightarrow> Inr (TableScan (table_name node) (condition node))
         | Some cond \<Rightarrow>
             if length results = 0 then Inr (TableScan (table_name node) (condition node))
             else
               (let condition_columns =
                      (if is_TableColumn (left cond) then [left cond] else []) @
                      (if is_TableColumn (right cond) then [right cond] else [])
                in if length condition_columns \<ge> 2 then Inl NotImplementedError
                   else if length condition_columns = 0 then
                     Inr (TableScan (table_name node) (condition node))
                   else
                     (let candidates = candidate_indexes condition_columns results
                      in if candidates = [] then
                           Inr (TableScan (table_name node) (condition node))
                         else
                           (case find (\<lambda>ci. length (columns node) = length (index_columns ci))
                                   candidates of
                              Some ci \<Rightarrow> Inr (CoveredIndexScan (index_name ci) cond)
                            | None \<Rightarrow>
                                Inr (IndexScan
                                  (index_name (shortest_index (hd candidates) candidates))
                                  cond)))))"

section \<open>Redo and undo logs (storage/transaction/redo.py, undo.py)\<close>

definition ebind :: "error + 'a \<Rightarrow> ('a \<Rightarrow> error + 'b) \<Rightarrow> error + 'b" where
  "ebind m f = (case m of Inl e \<Rightarrow> Inl e | Inr x \<Rightarrow> f x)"

datatype RedoAction =
    BEGIN | COMMIT | ABORT
  | TABLE_INSERT | TABLE_DELETE | TABLE_UPDATE
  | INDEX_INSERT | INDEX_DELETE | INDEX_UPDATE
  | CHECKPOINT

type_synonym location = "nat \<times> nat"

text \<open>A redo record keeps the pickled tuple of its fields in \<open>_bytes\<close> (here \<open>pickled\<close>);
  \<open>len(record)\<close> is the length of that plus the eight bytes of the size prefix.\<close>

record RedoRecord =
  xid :: int
  action :: RedoAction
  relation :: "string option"
  location :: "location option"
  data :: "byte list"
  pickled :: "byte list"

type_synonym redo_dumps =
  "int \<times> RedoAction \<times> string option \<times> location option \<times> byte list \<Rightarrow> byte list"

text \<open>The constructor; \<open>dumps\<close> stands for \<open>pickle.dumps\<close> on the tuple of the fields.\<close>

definition RedoRecord_new ::
  "redo_dumps \<Rightarrow> int \<Rightarrow> RedoAction \<Rightarrow> string option \<Rightarrow> location option \<Rightarrow> byte list
     \<Rightarrow> RedoRecord" where
  "RedoRecord_new dumps x a r l d =
     \<lparr>xid = x, action = a, relation = r, location = l, data = d,
      pickled = dumps (x, a, r, l, d)\<rparr>"

definition len_record :: "RedoRecord \<Rightarrow> nat" where
  "len_record r = length (pickled r) + 8"

datatype UndoOperation =
    BEGIN | TABLE_INSERT | TABLE_DELETE | TABLE_UPDATE | COMMIT | ABORT
  | INDEX_INSERT | INDEX_DELETE

text \<open>The payload of an undo record is a byte string for a table record and the index key
  (a tuple of column values) for an index record.\<close>

datatype payload = Bytes "byte list" | KeyTuple "int option list"

record UndoRecord =
  undo_xid :: int
  operation :: UndoOperation
  undo_relation :: "string option"
  undo_location :: "location option"
  undo_data :: payload

definition INVALID_XID :: int where
  "INVALID_XID = - 1"

definition REDOLOG_BUFFER_SIZE :: nat where
  "REDOLOG_BUFFER_SIZE = 10"

section \<open>Database state\<close>

type_synonym page_key = "string \<times> nat"

text \<open>The process-wide singletons of the source and the files they use:
  the buffer pool (\<open>lru_cache\<close>, \<open>dirty_pages\<close>), the table files (a table file is the list
  of the pages it holds, an absent file the empty list), the redo log manager
  (\<open>redo_file\<close> is the log file as the list of its records, with \<open>log_buffer\<close>, \<open>write_lsn\<close>,
  \<open>flush_lsn\<close>), the undo log manager (\<open>undo_files\<close> maps an xid to the records of the file
  \<open>undo/<xid>\<close>, with \<open>active_transactions\<close>), the transaction manager (\<open>current_xid\<close>,
  and \<open>thread_xid\<close> for the thread-local slot of the running thread) and the index files.\<close>

record 'ix DB =
  lru_cache :: "(page_key, Page) LRUCache"
  dirty_pages :: "page_key set"
  table_files :: "string \<Rightarrow> Page list"
  redo_file :: "RedoRecord list"
  log_buffer :: "RedoRecord list"
  write_lsn :: nat
  flush_lsn :: nat
  undo_files :: "int \<rightharpoonup> UndoRecord list"
  active_transactions :: "int \<rightharpoonup> UndoRecord list"
  current_xid :: int
  thread_xid :: "int option"
  index_files :: 'ix

subsection \<open>Buffer pool (storage/lru.py)\<close>

definition mark_dirty :: "'ix DB \<Rightarrow> page_key \<Rightarrow> error + 'ix DB" where
  "mark_dirty db k =
     (if \<not> in_cache (lru_cache db) k then Inl AssertionError
      else Inr (db\<lparr>dirty_pages := insert k (dirty_pages db)\<rparr>))"

definition find_max_pageno :: "'ix DB \<Rightarrow> string \<Rightarrow> int" where
  "find_max_pageno db relation_name =
     (let result = snd ` Set.filter (\<lambda>t. fst t = relation_name) (dirty_pages db)
      in if result = {} then - 1 else int (Max result))"

definition buffer_put :: "'ix DB \<Rightarrow> page_key \<Rightarrow> Page \<Rightarrow> error + 'ix DB" where
  "buffer_put db k page =
     (case put (lru_cache db) k page of
        (c, Inl e) \<Rightarrow> Inl e
      | (c, Inr u) \<Rightarrow> Inr (db\<lparr>lru_cache := c\<rparr>))"

definition buffer_get :: "'ix DB \<Rightarrow> page_key \<Rightarrow> 'ix DB \<times> Page option" where
  "buffer_get db k = (let (c, v) = get (lru_cache db) k in (db\<lparr>lru_cache := c\<rparr>, v))"

text \<open>A page handed out by the buffer pool is the object held by the cache node: a change
  made through the reference is a change of the value of that node.\<close>

definition store_page :: "'ix DB \<Rightarrow> page_key \<Rightarrow> Page \<Rightarrow> 'ix DB" where
  "store_page db k page =
     db\<lparr>lru_cache := (lru_cache db)
          \<lparr>nodes := map (\<lambda>n. if key n = k then n\<lparr>val := page\<rparr> else n)
                       (nodes (lru_cache db))\<rparr>\<rparr>"

subsection \<open>Table pages (storage/common.py)\<close>

definition table_tuple_get_disk_pages :: "'ix DB \<Rightarrow> string \<Rightarrow> nat" where
  "table_tuple_get_disk_pages db table = length (table_files db table)"

definition table_tuple_get_pages :: "'ix DB \<Rightarrow> string \<Rightarrow> int" where
  "table_tuple_get_pages db table =
     (let disk_pages = int (table_tuple_get_disk_pages db table);
          memory_pages = find_max_pageno db table + 1
      in max memory_pages disk_pages)"

definition table_tuple_get_page ::
  "'ix DB \<Rightarrow> string \<Rightarrow> nat \<Rightarrow> error + ('ix DB \<times> Page option)" where
  "table_tuple_get_page db table pageno =
     (let k = (table, pageno)
      in ebind
           (if \<not> in_cache (lru_cache db) k then
              (if pageno < table_tuple_get_disk_pages db table then
                 buffer_put db k (table_files db table ! pageno)
               else ebind (buffer_put db k Page_init) (\<lambda>db'. mark_dirty db' k))
            else Inr db)
           (\<lambda>db'. Inr (buffer_get db' k)))"

subsection \<open>Log managers\<close>

definition redo_flush :: "'ix DB \<Rightarrow> 'ix DB" where
  "redo_flush db =
     db\<lparr>redo_file := redo_file db @ log_buffer db,
        flush_lsn := flush_lsn db + sum_list (map len_record (log_buffer db)),
        log_buffer := []\<rparr>"

definition redo_write :: "'ix DB \<Rightarrow> RedoRecord \<Rightarrow> 'ix DB \<times> nat" where
  "redo_write db record =
     (let db1 = db\<lparr>log_buffer := log_buffer db @ [record],
                    write_lsn := write_lsn db + len_record record\<rparr>;
          db2 = (if action record = RedoAction.COMMIT
                    \<or> length (log_buffer db1) > REDOLOG_BUFFER_SIZE
                 then redo_flush db1 else db1)
      in (db2, write_lsn db2))"

text \<open>\<open>RedoLogManager.replay\<close>: seek to \<open>start_lsn\<close> and read records to the end of the
  file. \<open>recovery\<close> calls it at 0 and at the end of a record only. At a position inside a
  record the reader would take record bytes for a size prefix and unpickle what follows;
  which exception that raises (\<open>UnpicklingError\<close>, \<open>OverflowError\<close>, \<open>MemoryError\<close>) depends
  on the bytes, and the model answers \<open>UnpicklingError\<close>.\<close>

fun replay :: "RedoRecord list \<Rightarrow> nat \<Rightarrow> error + RedoRecord list" where
  "replay [] start_lsn = Inr []"
| "replay (r # rs) start_lsn =
     (if start_lsn = 0 then Inr (r # rs)
      else if len_record r \<le> start_lsn then replay rs (start_lsn - len_record r)
      else Inl UnpicklingError)"

definition undo_write :: "'ix DB \<Rightarrow> UndoRecord \<Rightarrow> error + 'ix DB" where
  "undo_write db record =
     (case active_transactions db (undo_xid record) of
        None \<Rightarrow> Inl AssertionError
      | Some rs \<Rightarrow>
          Inr (db\<lparr>active_transactions :=
                    (active_transactions db)(undo_xid record \<mapsto> rs @ [record])\<rparr>))"

definition parse_record :: "'ix DB \<Rightarrow> int \<Rightarrow> error + UndoRecord list" where
  "parse_record db x =
     (case undo_files db x of
        None \<Rightarrow> Inl FileNotFoundError
      | Some rs \<Rightarrow> Inr (rev rs))"


section \<open>Transaction manager (storage/transaction/entry.py)\<close>

text \<open>\<open>perform_undo\<close> rebuilds and rewrites the B+ tree file of an index for an index record.
  That file access is the parameter \<open>index_undo\<close>, acting on \<open>index_files\<close>; it touches no
  page of the buffer pool.\<close>

type_synonym 'ix index_undo = "UndoRecord \<Rightarrow> 'ix \<Rightarrow> error + 'ix"

definition session_xid :: "'ix DB \<Rightarrow> int" where
  "session_xid db = (case thread_xid db of None \<Rightarrow> INVALID_XID | Some x \<Rightarrow> x)"

text \<open>One iteration of the loop of \<open>perform_undo\<close>. Unpacking a missing location or using a
  missing relation name raises \<open>TypeError\<close>, a missing page object \<open>AttributeError\<close>.\<close>

definition undo_one :: "'ix index_undo \<Rightarrow> 'ix DB \<Rightarrow> UndoRecord \<Rightarrow> nat \<Rightarrow> error + 'ix DB" where
  "undo_one index_undo db undo_record l =
     (case operation undo_record of
        UndoOperation.TABLE_DELETE \<Rightarrow>
          (case (undo_relation undo_record, undo_location undo_record) of
             (Some rel, Some (pageno, sid)) \<Rightarrow>
               ebind (table_tuple_get_page db rel pageno) (\<lambda>(db1, po).
                 case po of
                   None \<Rightarrow> Inl AttributeError
                 | Some page \<Rightarrow>
                     (case delete_page page sid of
                        (page1, Inl e) \<Rightarrow> Inl e
                      | (page1, Inr ok) \<Rightarrow>
                          mark_dirty (store_page db1 (rel, pageno) (set_header page1 (int l)))
                            (rel, pageno)))
           | _ \<Rightarrow> Inl TypeError)
      | UndoOperation.TABLE_INSERT \<Rightarrow>
          (case (undo_relation undo_record, undo_location undo_record, undo_data undo_record) of
             (Some rel, Some (pageno, sid), Bytes d) \<Rightarrow>
               ebind (table_tuple_get_page db rel pageno) (\<lambda>(db1, po).
                 case po of
                   None \<Rightarrow> Inl AttributeError
                 | Some page \<Rightarrow>
                     (case insert_page page d of
                        (page1, Inl e) \<Rightarrow> Inl e
                      | (page1, Inr new_sid) \<Rightarrow>
                          mark_dirty (store_page db1 (rel, pageno) (set_header page1 (int l)))
                            (rel, pageno)))
           | _ \<Rightarrow> Inl TypeError)
      | UndoOperation.TABLE_UPDATE \<Rightarrow>
          (case (undo_relation undo_record, undo_location undo_record, undo_data undo_record) of
             (Some rel, Some (pageno, sid), Bytes d) \<Rightarrow>
               ebind (table_tuple_get_page db rel pageno) (\<lambda>(db1, po).
                 case po of
                   None \<Rightarrow> Inl AttributeError
                 | Some page \<Rightarrow>
                     (case update_page page sid d of
                        (page1, Inl e) \<Rightarrow> Inl e
                      | (page1, Inr new_sid) \<Rightarrow>
                          mark_dirty (store_page db1 (rel, pageno) (set_header page1 (int l)))
                            (rel, pageno)))
           | _ \<Rightarrow> Inl TypeError)
      | UndoOperation.INDEX_INSERT \<Rightarrow>
          ebind (index_undo undo_record (index_files db)) (\<lambda>ix. Inr (db\<lparr>index_files := ix\<rparr>))
      | UndoOperation.INDEX_DELETE \<Rightarrow>
          ebind (index_undo undo_record (index_files db)) (\<lambda>ix. Inr (db\<lparr>index_files := ix\<rparr>))
      | _ \<Rightarrow> Inr db)"

fun undo_all :: "'ix index_undo \<Rightarrow> 'ix DB \<Rightarrow> UndoRecord list \<Rightarrow> nat \<Rightarrow> error + 'ix DB" where
  "undo_all index_undo db [] l = Inr db"
| "undo_all index_undo db (undo_record # rest) l =
     ebind (undo_one index_undo db undo_record l) (\<lambda>db'. undo_all index_undo db' rest l)"

definition perform_undo :: "'ix index_undo \<Rightarrow> 'ix DB \<Rightarrow> int \<Rightarrow> nat \<Rightarrow> error + 'ix DB" where
  "perform_undo index_undo db x l =
     ebind (parse_record db x) (\<lambda>undo_records. undo_all index_undo db undo_records l)"

text \<open>The first loop of \<open>recovery\<close>: the lsn just after the last CHECKPOINT record.\<close>

fun find_checkpoint :: "RedoRecord list \<Rightarrow> nat \<Rightarrow> nat \<Rightarrow> nat" where
  "find_checkpoint [] replay_lsn checkpoint_lsn = checkpoint_lsn"
| "find_checkpoint (redo_record # rest) replay_lsn checkpoint_lsn =
     (let replay_lsn' = replay_lsn + len_record redo_record
      in find_checkpoint rest replay_lsn'
           (if action redo_record = RedoAction.CHECKPOINT then replay_lsn'
            else checkpoint_lsn))"

text \<open>The redo of one table record: fetch the page, and change it only when its lsn is below
  the lsn of the record. \<open>apply\<close> is the page operation of the record.\<close>

definition redo_page ::
  "'ix DB \<Rightarrow> RedoRecord \<Rightarrow> nat \<Rightarrow> (Page \<Rightarrow> nat \<Rightarrow> error + Page) \<Rightarrow> error + 'ix DB" where
  "redo_page db redo_record replay_lsn apply =
     (case (relation redo_record, location redo_record) of
        (Some rel, Some (pageno, sid)) \<Rightarrow>
          ebind (table_tuple_get_page db rel pageno) (\<lambda>(db1, po).
            case po of
              None \<Rightarrow> Inl AttributeError
            | Some page \<Rightarrow>
                if lsn (page_header page) < int replay_lsn then
                  ebind (apply page sid) (\<lambda>page1. Inr (store_page db1 (rel, pageno) page1))
                else Inr db1)
      | _ \<Rightarrow> Inl TypeError)"

definition redo_insert :: "byte list \<Rightarrow> nat \<Rightarrow> Page \<Rightarrow> nat \<Rightarrow> error + Page" where
  "redo_insert d replay_lsn page sid =
     (case insert_page page d of
        (page1, Inl e) \<Rightarrow> Inl e
      | (page1, Inr new_sid) \<Rightarrow>
          if new_sid = sid then Inr (set_header page1 (int replay_lsn))
          else Inl AssertionError)"

definition redo_delete :: "nat \<Rightarrow> Page \<Rightarrow> nat \<Rightarrow> error + Page" where
  "redo_delete replay_lsn page sid =
     (case delete_page page sid of
        (page1, Inl e) \<Rightarrow> Inl e
      | (page1, Inr ok) \<Rightarrow> Inr (set_header page1 (int replay_lsn)))"

definition redo_update :: "byte list \<Rightarrow> nat \<Rightarrow> Page \<Rightarrow> nat \<Rightarrow> error + Page" where
  "redo_update d replay_lsn page sid =
     (case update_page page sid d of
        (page1, Inl e) \<Rightarrow> Inl e
      | (page1, Inr new_sid) \<Rightarrow> Inr (set_header page1 (int replay_lsn)))"

text \<open>One iteration of the second loop of \<open>recovery\<close>, at the lsn of the end of the record;
  \<open>transactions\<close> is the list of transactions in flight.\<close>

definition replay_one ::
  "'ix index_undo \<Rightarrow> 'ix DB \<Rightarrow> RedoRecord \<Rightarrow> nat \<Rightarrow> int list \<Rightarrow> error + ('ix DB \<times> int list)"
  where
  "replay_one index_undo db redo_record replay_lsn transactions =
     (case action redo_record of
        RedoAction.BEGIN \<Rightarrow>
          Inr (db\<lparr>current_xid := xid redo_record\<rparr>, transactions @ [xid redo_record])
      | RedoAction.TABLE_INSERT \<Rightarrow>
          ebind (redo_page db redo_record replay_lsn (redo_insert (data redo_record) replay_lsn))
            (\<lambda>db'. Inr (db', transactions))
      | RedoAction.TABLE_DELETE \<Rightarrow>
          ebind (redo_page db redo_record replay_lsn (redo_delete replay_lsn))
            (\<lambda>db'. Inr (db', transactions))
      | RedoAction.TABLE_UPDATE \<Rightarrow>
          ebind (redo_page db redo_record replay_lsn (redo_update (data redo_record) replay_lsn))
            (\<lambda>db'. Inr (db', transactions))
      | RedoAction.ABORT \<Rightarrow>
          ebind (perform_undo index_undo db (xid redo_record) replay_lsn)
            (\<lambda>db'. Inr (db', transactions))
      | RedoAction.COMMIT \<Rightarrow>
          if xid redo_record \<in> set transactions
          then Inr (db, remove1 (xid redo_record) transactions)
          else Inl ValueError
      | _ \<Rightarrow> Inr (db, transactions))"

fun replay_loop ::
  "'ix index_undo \<Rightarrow> 'ix DB \<Rightarrow> RedoRecord list \<Rightarrow> nat \<Rightarrow> int list
     \<Rightarrow> error + ('ix DB \<times> int list)" where
  "replay_loop index_undo db [] replay_lsn transactions = Inr (db, transactions)"
| "replay_loop index_undo db (redo_record # rest) replay_lsn transactions =
     ebind (replay_one index_undo db redo_record (replay_lsn + len_record redo_record)
              transactions)
       (\<lambda>(db', transactions').
          replay_loop index_undo db' rest (replay_lsn + len_record redo_record) transactions')"

text \<open>The last loop of \<open>recovery\<close>: every transaction still in the list is aborted.\<close>

fun abort_in_flight ::
  "redo_dumps \<Rightarrow> 'ix index_undo \<Rightarrow> 'ix DB \<Rightarrow> int list \<Rightarrow> error + 'ix DB" where
  "abort_in_flight dumps index_undo db [] = Inr db"
| "abort_in_flight dumps index_undo db (x # rest) =
     (let (db1, l) = redo_write db (RedoRecord_new dumps x RedoAction.ABORT None None [])
      in ebind (perform_undo index_undo db1 x l)
           (\<lambda>db2. abort_in_flight dumps index_undo db2 rest))"

text \<open>The replay part of \<open>recovery\<close>: both scans of the redo log, giving the state and the
  transactions left in flight at the end of the log.\<close>

definition recovery_replay ::
  "'ix index_undo \<Rightarrow> 'ix DB \<Rightarrow> error + ('ix DB \<times> int list)" where
  "recovery_replay index_undo db =
     (let flush_lsn' = sum_list (map len_record (redo_file db));
          db1 = db\<lparr>flush_lsn := flush_lsn', write_lsn := flush_lsn'\<rparr>
      in ebind (replay (redo_file db1) 0) (\<lambda>all_records.
           let checkpoint_lsn = find_checkpoint all_records 0 0
           in ebind (replay (redo_file db1) checkpoint_lsn) (\<lambda>redo_records.
                replay_loop index_undo db1 redo_records checkpoint_lsn [])))"

definition recovery :: "redo_dumps \<Rightarrow> 'ix index_undo \<Rightarrow> 'ix DB \<Rightarrow> error + 'ix DB" where
  "recovery dumps index_undo db =
     ebind (recovery_replay index_undo db)
       (\<lambda>(db2, transactions). abort_in_flight dumps index_undo db2 transactions)"


section \<open>Heap access (storage/entry.py)\<close>

text \<open>The functions of this section and of the transaction manager answer an exception
  without a state: what was already changed when the exception is raised (for the fallback
  of \<open>table_tuple_update_one\<close>, the row deleted and logged before the insert raises) is not
  part of the answer, and nothing below is stated about it.\<close>

text \<open>Pickling is the parameter \<open>pk\<close>: \<open>pickle_redo\<close> pickles the tuple of the fields of a
  redo record, \<open>tuple_to_bytes\<close> a table tuple, \<open>pickle_bytes\<close> a byte string
  (\<open>tuple_to_bytes\<close> applied to the result of \<open>page.select\<close>), \<open>loads\<close> unpickles a table
  tuple and \<open>empty_tuple\<close> is \<open>()\<close>.\<close>

record 'tup Pickle =
  pickle_redo :: redo_dumps
  tuple_to_bytes :: "'tup \<Rightarrow> byte list"
  pickle_bytes :: "byte list \<Rightarrow> byte list"
  loads :: "byte list \<Rightarrow> 'tup"
  empty_tuple :: 'tup

definition bytes_to_tuple :: "'tup Pickle \<Rightarrow> byte list \<Rightarrow> 'tup" where
  "bytes_to_tuple pk bs = (if length bs = 0 then empty_tuple pk else loads pk bs)"

text \<open>A change made through a reference to a page object held earlier: the object is the
  value of the cache node of its key or, once that node was evicted, the value kept in
  \<open>evicted\<close>.\<close>

definition modify_page :: "'ix DB \<Rightarrow> page_key \<Rightarrow> (Page \<Rightarrow> Page) \<Rightarrow> 'ix DB" where
  "modify_page db k f =
     (if in_cache (lru_cache db) k then
        db\<lparr>lru_cache := (lru_cache db)
             \<lparr>nodes := map (\<lambda>n. if key n = k then n\<lparr>val := f (val n)\<rparr> else n)
                          (nodes (lru_cache db))\<rparr>\<rparr>
      else
        (case evicted (lru_cache db) k of
           None \<Rightarrow> db
         | Some page \<Rightarrow>
             db\<lparr>lru_cache := (lru_cache db)
                  \<lparr>evicted := (evicted (lru_cache db))(k \<mapsto> f page)\<rparr>\<rparr>))"

definition table_tuple_get_last_pageno :: "'ix DB \<Rightarrow> string \<Rightarrow> int" where
  "table_tuple_get_last_pageno db table = max (table_tuple_get_pages db table - 1) 0"

definition table_tuple_allocate_page :: "'ix DB \<Rightarrow> string \<Rightarrow> error + ('ix DB \<times> int)" where
  "table_tuple_allocate_page db table =
     (let pageno = table_tuple_get_last_pageno db table
      in ebind (table_tuple_get_page db table (nat pageno)) (\<lambda>(db1, po).
           let new_pageno = table_tuple_get_last_pageno db1 table
           in if new_pageno = pageno + 1 then Inr (db1, new_pageno)
              else Inl AssertionError))"

definition table_tuple_get_one ::
  "'tup Pickle \<Rightarrow> 'ix DB \<Rightarrow> string \<Rightarrow> location \<Rightarrow> error + ('ix DB \<times> 'tup)" where
  "table_tuple_get_one pk db table loc =
     (case loc of (pageno, sid) \<Rightarrow>
        ebind (table_tuple_get_page db table pageno) (\<lambda>(db1, po).
          case po of
            None \<Rightarrow> Inl AttributeError
          | Some page \<Rightarrow>
              ebind (select_page page sid) (\<lambda>bs. Inr (db1, bytes_to_tuple pk bs))))"

text \<open>The logging tail shared by the mutations: the undo record, then the redo record, then
  the header of the page object \<open>stamped\<close> is set to the lsn returned by the redo log.\<close>

definition write_logs ::
  "'ix DB \<Rightarrow> UndoRecord \<Rightarrow> RedoRecord \<Rightarrow> page_key \<Rightarrow> error + 'ix DB" where
  "write_logs db undo_record redo_record stamped =
     ebind (undo_write db undo_record) (\<lambda>db1.
       let (db2, l) = redo_write db1 redo_record
       in Inr (modify_page db2 stamped (\<lambda>p. set_header p (int l))))"

definition table_tuple_insert_one ::
  "'tup Pickle \<Rightarrow> 'ix DB \<Rightarrow> string \<Rightarrow> 'tup \<Rightarrow> error + ('ix DB \<times> location)" where
  "table_tuple_insert_one pk db table tup =
     ebind (let pageno = table_tuple_get_last_pageno db table
            in if pageno < 0 then table_tuple_allocate_page db table else Inr (db, pageno))
       (\<lambda>(db0, pageno_int).
          let pageno = nat pageno_int
          in ebind (table_tuple_get_page db0 table pageno) (\<lambda>(db1, po).
               case po of
                 None \<Rightarrow> Inl AttributeError
               | Some page \<Rightarrow>
                   (let x = session_xid db1;
                        tuple_bytes = tuple_to_bytes pk tup
                    in case insert_page page (tuple_to_bytes pk tup) of
                         (page1, Inr sid) \<Rightarrow>
                           ebind (mark_dirty (store_page db1 (table, pageno) page1)
                                    (table, pageno)) (\<lambda>db2.
                             ebind (write_logs db2
                                 \<lparr>undo_xid = x, operation = UndoOperation.TABLE_DELETE,
                                  undo_relation = Some table,
                                  undo_location = Some (pageno, sid), undo_data = Bytes []\<rparr>
                                 (RedoRecord_new (pickle_redo pk) x RedoAction.TABLE_INSERT
                                    (Some table) (Some (pageno, sid)) tuple_bytes)
                                 (table, pageno))
                               (\<lambda>db3. Inr (db3, (pageno, sid))))
                       | (page1, Inl e) \<Rightarrow>
                           if e \<noteq> PageError then Inl e
                           else
                             ebind (table_tuple_allocate_page db1 table) (\<lambda>(db2, new_int).
                               let new_pageno = nat new_int
                               in ebind (table_tuple_get_page db2 table new_pageno)
                                    (\<lambda>(db3, npo).
                                       case npo of
                                         None \<Rightarrow> Inl AttributeError
                                       | Some new_page \<Rightarrow>
                                           (case insert_page new_page tuple_bytes of
                                              (new_page1, Inl e') \<Rightarrow> Inl e'
                                            | (new_page1, Inr sid) \<Rightarrow>
                                                ebind (mark_dirty
                                                    (store_page db3 (table, new_pageno) new_page1)
                                                    (table, new_pageno)) (\<lambda>db4.
                                                  ebind (write_logs db4
                                                      \<lparr>undo_xid = x,
                                                       operation = UndoOperation.TABLE_DELETE,
                                                       undo_relation = Some table,
                                                       undo_location = Some (new_pageno, sid),
                                                       undo_data = Bytes []\<rparr>
                                                      (RedoRecord_new (pickle_redo pk) x
                                                         RedoAction.TABLE_INSERT (Some table)
                                                         (Some (new_pageno, sid)) tuple_bytes)
                                                      (table, pageno))
                                                    (\<lambda>db5. Inr (db5, (pageno, sid))))))))))"

definition table_tuple_delete_one ::
  "'tup Pickle \<Rightarrow> 'ix DB \<Rightarrow> string \<Rightarrow> location \<Rightarrow> error + 'ix DB" where
  "table_tuple_delete_one pk db table loc =
     (case loc of (pageno, sid) \<Rightarrow>
        ebind (table_tuple_get_page db table pageno) (\<lambda>(db1, po).
          let x = session_xid db1
          in ebind (table_tuple_get_one pk db1 table loc) (\<lambda>(db2, old_tuple).
               let old_tuple_bytes = tuple_to_bytes pk old_tuple
               in case po of
                    None \<Rightarrow> Inl AttributeError
                  | Some page \<Rightarrow>
                      (case delete_page page sid of
                         (page1, Inl e) \<Rightarrow> Inl e
                       | (page1, Inr ok) \<Rightarrow>
                           ebind (mark_dirty (store_page db2 (table, pageno) page1)
                                    (table, pageno)) (\<lambda>db3.
                             write_logs db3
                               \<lparr>undo_xid = x, operation = UndoOperation.TABLE_INSERT,
                                undo_relation = Some table,
                                undo_location = Some (pageno, sid),
                                undo_data = Bytes old_tuple_bytes\<rparr>
                               (RedoRecord_new (pickle_redo pk) x RedoAction.TABLE_DELETE
                                  (Some table) (Some (pageno, sid)) [])
                               (table, pageno))))))"

text \<open>\<open>table_tuple_update_one\<close> returns the new slot index, or on its fallback path what
  \<open>table_tuple_insert_one\<close> returns, a location.\<close>

datatype update_result = Sid nat | Location location

definition table_tuple_update_one ::
  "'tup Pickle \<Rightarrow> 'ix DB \<Rightarrow> string \<Rightarrow> location \<Rightarrow> 'tup \<Rightarrow> error + ('ix DB \<times> update_result)"
  where
  "table_tuple_update_one pk db table loc tup =
     (case loc of (pageno, sid) \<Rightarrow>
        ebind (table_tuple_get_page db table pageno) (\<lambda>(db1, po).
          case po of
            None \<Rightarrow> Inl AttributeError
          | Some page \<Rightarrow>
              (let x = session_xid db1
               in ebind (select_page page sid) (\<lambda>old.
                    let old_tuple_bytes = pickle_bytes pk old
                    in case update_page page sid (tuple_to_bytes pk tup) of
                         (page1, Inr new_sid) \<Rightarrow>
                           ebind (mark_dirty (store_page db1 (table, pageno) page1)
                                    (table, pageno)) (\<lambda>db2.
                             ebind (write_logs db2
                                 \<lparr>undo_xid = x, operation = UndoOperation.TABLE_UPDATE,
                                  undo_relation = Some table,
                                  undo_location = Some (pageno, sid),
                                  undo_data = Bytes old_tuple_bytes\<rparr>
                                 (RedoRecord_new (pickle_redo pk) x RedoAction.TABLE_UPDATE
                                    (Some table) (Some (pageno, new_sid))
                                    (tuple_to_bytes pk tup))
                                 (table, pageno))
                               (\<lambda>db3. Inr (db3, Sid new_sid)))
                       | (page1, Inl e) \<Rightarrow>
                           if e \<noteq> PageError then Inl e
                           else
                             ebind (table_tuple_delete_one pk (store_page db1 (table, pageno) page1)
                                      table loc) (\<lambda>db2.
                               ebind (table_tuple_insert_one pk db2 table tup)
                                 (\<lambda>(db3, new_loc). Inr (db3, Location new_loc)))))))"


section \<open>B+ tree (storage/bplus\_tree.py)\<close>

subsection \<open>Keys\<close>

text \<open>A \<open>BPlusTreeTuple\<close> wraps a tuple of column values, each an integer or \<open>None\<close>.\<close>

type_synonym bkey = "int option list"

definition cmp_value :: "int option \<Rightarrow> int option \<Rightarrow> int" where
  "cmp_value a b =
     (case (a, b) of
        (None, None) \<Rightarrow> 0
      | (None, Some y) \<Rightarrow> - 1
      | (Some x, None) \<Rightarrow> 1
      | (Some x, Some y) \<Rightarrow> if x = y then 0 else if x < y then - 1 else 1)"

text \<open>The loop of \<open>__lt__\<close> over the positions of the tuple.\<close>

fun lt_loop :: "bkey \<Rightarrow> bkey \<Rightarrow> bool" where
  "lt_loop (a # as) (b # bs) =
     (let r = cmp_value a b
      in if r = 0 then lt_loop as bs else if r < 0 then True else False)"
| "lt_loop as bs = False"

definition key_lt :: "bkey \<Rightarrow> bkey \<Rightarrow> error + bool" where
  "key_lt a b = (if length a \<noteq> length b then Inl AssertionError else Inr (lt_loop a b))"

definition key_eq :: "bkey \<Rightarrow> bkey \<Rightarrow> bool" where
  "key_eq a b = (a = b)"

definition key_le :: "bkey \<Rightarrow> bkey \<Rightarrow> error + bool" where
  "key_le a b = (if key_eq a b then Inr True else key_lt a b)"

definition key_gt :: "bkey \<Rightarrow> bkey \<Rightarrow> error + bool" where
  "key_gt a b = (if key_eq a b then Inr False else ebind (key_lt a b) (\<lambda>r. Inr (\<not> r)))"

text \<open>Python's comparison of two tuples of keys: the first position where the elements are
  not equal decides by \<open><\<close>; without one the shorter tuple is the smaller.\<close>

fun tuple_lt :: "bkey list \<Rightarrow> bkey list \<Rightarrow> error + bool" where
  "tuple_lt [] [] = Inr False"
| "tuple_lt [] (b # bs) = Inr True"
| "tuple_lt (a # as) [] = Inr False"
| "tuple_lt (a # as) (b # bs) = (if key_eq a b then tuple_lt as bs else key_lt a b)"

subsection \<open>Nodes and trees\<close>

text \<open>Node objects live in a heap and are referred to by their page number, which
  \<open>allocate_node\<close> makes unique and which is what \<open>__eq__\<close> of a node compares. The model is
  of trees held in memory: every node is loaded.\<close>

record BPlusTreeNode =
  is_leaf :: bool
  keys :: "bkey list"
  children :: "nat list"
  node_values :: "location list"
  loaded :: bool
  pageno :: nat
  next_leaf :: "nat option"

record BPlusTree =
  root :: nat
  node_count :: nat
  heap :: "nat \<rightharpoonup> BPlusTreeNode"

definition node_at :: "BPlusTree \<Rightarrow> nat \<Rightarrow> error + BPlusTreeNode" where
  "node_at t n = (case heap t n of None \<Rightarrow> Inl AttributeError | Some node \<Rightarrow> Inr node)"

definition allocate_node :: "BPlusTree \<Rightarrow> bool \<Rightarrow> BPlusTree \<times> nat" where
  "allocate_node t leaf =
     (t\<lparr>heap := (heap t)(node_count t \<mapsto>
            \<lparr>is_leaf = leaf, keys = [], children = [], node_values = [], loaded = True,
             pageno = node_count t, next_leaf = None\<rparr>),
        node_count := node_count t + 1\<rparr>,
      node_count t)"

text \<open>\<open>BPlusTree()\<close> for a new index.\<close>

definition BPlusTree_init :: BPlusTree where
  "BPlusTree_init =
     (let (t, r) = allocate_node \<lparr>root = 0, node_count = 0, heap = Map.empty\<rparr> True
      in t\<lparr>root := r\<rparr>)"

definition need_split :: "BPlusTreeNode \<Rightarrow> bool" where
  "need_split node = (length (keys node) > 10)"

fun find_rightmost_key_index :: "bkey list \<Rightarrow> bkey \<Rightarrow> nat \<Rightarrow> error + nat" where
  "find_rightmost_key_index [] k i = Inr i"
| "find_rightmost_key_index (k' # ks) k i =
     ebind (key_le k' k) (\<lambda>b. if b then find_rightmost_key_index ks k (i + 1) else Inr i)"

fun find_leftmost_key_index :: "bkey list \<Rightarrow> bkey \<Rightarrow> nat \<Rightarrow> error + nat" where
  "find_leftmost_key_index [] k i = Inr i"
| "find_leftmost_key_index (k' # ks) k i =
     ebind (key_le k k') (\<lambda>b. if b then Inr i else find_leftmost_key_index ks k (i + 1))"

definition get_child :: "BPlusTreeNode \<Rightarrow> nat \<Rightarrow> nat option" where
  "get_child node i =
     (if i \<ge> length (children node) then next_leaf node else Some (children node ! i))"

text \<open>The two loops of \<open>find_leaf_node\<close>. They follow references through the heap, so they
  run on fuel; \<open>Diverges\<close> is the answer when it runs out.\<close>

fun descend :: "nat \<Rightarrow> BPlusTree \<Rightarrow> nat \<Rightarrow> bkey \<Rightarrow> error + nat option" where
  "descend 0 t n k = Inl Diverges"
| "descend (Suc fuel) t n k =
     ebind (node_at t n) (\<lambda>node.
       if is_leaf node then Inr (Some n)
       else
         ebind (find_leftmost_key_index (keys node) k 0) (\<lambda>index.
           if index \<ge> length (keys node) then
             (if children node = [] then Inl IndexError
              else descend fuel t (last (children node)) k)
           else
             (case get_child node index of
                None \<Rightarrow> Inr None
              | Some c \<Rightarrow> descend fuel t c k)))"

fun walk_right :: "nat \<Rightarrow> BPlusTree \<Rightarrow> nat \<Rightarrow> bkey \<Rightarrow> error + nat" where
  "walk_right 0 t n k = Inl Diverges"
| "walk_right (Suc fuel) t n k =
     ebind (node_at t n) (\<lambda>node.
       if keys node = [] then Inr n
       else
         ebind (key_lt (last (keys node)) k) (\<lambda>b.
           if b then
             (case next_leaf node of
                None \<Rightarrow> Inr n
              | Some nx \<Rightarrow> walk_right fuel t nx k)
           else Inr n))"

definition find_leaf_node :: "BPlusTree \<Rightarrow> bkey \<Rightarrow> error + nat" where
  "find_leaf_node t k =
     ebind (descend (node_count t + 1) t (root t) k) (\<lambda>r.
       case r of
         None \<Rightarrow> Inl AttributeError
       | Some n \<Rightarrow> walk_right (node_count t + 1) t n k)"

text \<open>\<open>_find_parent\<close>: the node itself when it is a leaf or has the target among its children,
  else the first child that has the target among its children (the recursive call on that
  child returns it at once), else \<open>None\<close>.\<close>

fun find_parent_child :: "BPlusTree \<Rightarrow> nat list \<Rightarrow> nat \<Rightarrow> error + nat option" where
  "find_parent_child t [] target = Inr None"
| "find_parent_child t (child # rest) target =
     ebind (node_at t child) (\<lambda>cnode.
       if target \<in> set (children cnode) then Inr (Some child)
       else find_parent_child t rest target)"

definition find_parent :: "BPlusTree \<Rightarrow> nat \<Rightarrow> nat \<Rightarrow> error + nat option" where
  "find_parent t current target =
     ebind (node_at t current) (\<lambda>cur.
       if is_leaf cur \<or> target \<in> set (children cur) then Inr (Some current)
       else find_parent_child t (children cur) target)"

text \<open>\<open>list.insert(index, x)\<close> and \<open>list.index(x)\<close>.\<close>

definition list_insert :: "'a list \<Rightarrow> nat \<Rightarrow> 'a \<Rightarrow> 'a list" where
  "list_insert xs i x = take i xs @ [x] @ drop i xs"

fun list_index :: "'a list \<Rightarrow> 'a \<Rightarrow> nat \<Rightarrow> error + nat" where
  "list_index [] x i = Inl ValueError"
| "list_index (y # ys) x i = (if y = x then Inr i else list_index ys x (i + 1))"

text \<open>\<open>_split\<close>, which calls itself on the parent; the fuel bounds the number of levels.\<close>

fun split :: "nat \<Rightarrow> BPlusTree \<Rightarrow> nat \<Rightarrow> error + BPlusTree" where
  "split 0 t n = Inl Diverges"
| "split (Suc fuel) t n =
     ebind (node_at t n) (\<lambda>node.
       let middle_index = length (keys node) div 2;
           (t1, r) = allocate_node t (is_leaf node);
           right_node =
             \<lparr>is_leaf = is_leaf node, keys = drop middle_index (keys node),
              children = drop middle_index (children node),
              node_values = drop middle_index (node_values node), loaded = True, pageno = r,
              next_leaf = next_leaf node\<rparr>;
           left_node =
             node\<lparr>keys := take middle_index (keys node),
                  children := take middle_index (children node),
                  node_values := take middle_index (node_values node),
                  next_leaf := Some r\<rparr>;
           t2 = t1\<lparr>heap := (heap t1)(r \<mapsto> right_node, n \<mapsto> left_node)\<rparr>
       in if \<not> (length (keys left_node) > 0 \<and> length (keys right_node) > 0)
          then Inl AssertionError
          else
            ebind (tuple_lt (keys left_node) (keys right_node)) (\<lambda>ordered.
              if \<not> ordered then Inl AssertionError
              else if n = root t2 then
                (let (t3, nr) = allocate_node t2 False
                 in ebind (node_at t3 nr) (\<lambda>new_root.
                      Inr (t3\<lparr>heap := (heap t3)(nr \<mapsto>
                               new_root\<lparr>keys := [hd (keys right_node)],
                                        children := [n, r]\<rparr>),
                             root := nr\<rparr>)))
              else
                ebind (find_parent t2 (root t2) n) (\<lambda>po.
                  case po of
                    None \<Rightarrow> Inl AttributeError
                  | Some p \<Rightarrow>
                      ebind (node_at t2 p) (\<lambda>parent.
                        ebind (list_index (children parent) n 0) (\<lambda>index.
                          let parent' =
                                parent\<lparr>keys := list_insert (keys parent) index
                                                  (hd (keys right_node)),
                                       children := list_insert (children parent) (index + 1) r\<rparr>;
                              t3 = t2\<lparr>heap := (heap t2)(p \<mapsto> parent')\<rparr>
                          in if need_split parent' then split fuel t3 p else Inr t3)))))"

definition insert_tree :: "BPlusTree \<Rightarrow> bkey \<Rightarrow> location \<Rightarrow> error + BPlusTree" where
  "insert_tree t k v =
     ebind (find_leaf_node t k) (\<lambda>n.
       ebind (node_at t n) (\<lambda>node.
         ebind (find_rightmost_key_index (keys node) k 0) (\<lambda>index.
           let node' = node\<lparr>keys := list_insert (keys node) index k,
                             node_values := list_insert (node_values node) index v\<rparr>;
               t1 = t\<lparr>heap := (heap t)(n \<mapsto> node')\<rparr>
           in if need_split node' then split (node_count t1 + 1) t1 n else Inr t1)))"

fun find_indexes :: "bkey list \<Rightarrow> bkey \<Rightarrow> nat \<Rightarrow> error + nat list" where
  "find_indexes [] k i = Inr []"
| "find_indexes (k' # ks) k i =
     (if key_eq k k' then ebind (find_indexes ks k (i + 1)) (\<lambda>is. Inr (i # is))
      else ebind (key_gt k' k) (\<lambda>b. if b then Inr [] else find_indexes ks k (i + 1)))"

text \<open>\<open>list.pop(i)\<close> for an index that is not negative.\<close>

definition list_pop :: "'a list \<Rightarrow> nat \<Rightarrow> error + 'a list" where
  "list_pop xs i = (if i \<ge> length xs then Inl IndexError else Inr (take i xs @ drop (i + 1) xs))"

text \<open>The inner loop of \<open>delete\<close> over the indexes found in one leaf.\<close>

fun delete_indexes ::
  "nat list \<Rightarrow> nat \<Rightarrow> location option \<Rightarrow> bkey list \<Rightarrow> location list
     \<Rightarrow> error + (bkey list \<times> location list)" where
  "delete_indexes [] deleted_count v ks vs = Inr (ks, vs)"
| "delete_indexes (index # rest) deleted_count v ks vs =
     (let actual_index = index - deleted_count
      in if v \<noteq> None \<and> actual_index \<ge> length vs then Inl IndexError
         else if v \<noteq> None \<and> Some (vs ! actual_index) \<noteq> v
         then delete_indexes rest deleted_count v ks vs
         else
           ebind (list_pop ks actual_index) (\<lambda>ks'.
             ebind (list_pop vs actual_index) (\<lambda>vs'.
               delete_indexes rest (deleted_count + 1) v ks' vs')))"

fun delete_loop ::
  "nat \<Rightarrow> BPlusTree \<Rightarrow> nat option \<Rightarrow> bkey \<Rightarrow> location option \<Rightarrow> error + BPlusTree" where
  "delete_loop 0 t no k v = Inl Diverges"
| "delete_loop (Suc fuel) t None k v = Inr t"
| "delete_loop (Suc fuel) t (Some n) k v =
     ebind (node_at t n) (\<lambda>node.
       ebind (find_indexes (keys node) k 0) (\<lambda>indexes.
         if length indexes = 0 then Inr t
         else
           ebind (delete_indexes indexes 0 v (keys node) (node_values node)) (\<lambda>(ks', vs').
             delete_loop fuel
               (t\<lparr>heap := (heap t)(n \<mapsto> node\<lparr>keys := ks', node_values := vs'\<rparr>)\<rparr>)
               (next_leaf node) k v)))"

definition delete_tree :: "BPlusTree \<Rightarrow> bkey \<Rightarrow> location option \<Rightarrow> error + BPlusTree" where
  "delete_tree t k v =
     ebind (find_leaf_node t k) (\<lambda>n. delete_loop (node_count t + 1) t (Some n) k v)"

subsection \<open>Sequences of tree operations and the order of the leaves\<close>

datatype tree_op = TreeInsert bkey location | TreeDelete bkey "location option"

fun run_tree_ops :: "BPlusTree \<Rightarrow> tree_op list \<Rightarrow> error + BPlusTree" where
  "run_tree_ops t [] = Inr t"
| "run_tree_ops t (TreeInsert k v # rest) =
     ebind (insert_tree t k v) (\<lambda>t'. run_tree_ops t' rest)"
| "run_tree_ops t (TreeDelete k v # rest) =
     ebind (delete_tree t k v) (\<lambda>t'. run_tree_ops t' rest)"

text \<open>The leftmost leaf (first child all the way down) and the keys of the leaves met from
  there along \<open>next_leaf\<close>.\<close>

fun leftmost_leaf :: "nat \<Rightarrow> BPlusTree \<Rightarrow> nat \<Rightarrow> error + nat" where
  "leftmost_leaf 0 t n = Inl Diverges"
| "leftmost_leaf (Suc fuel) t n =
     ebind (node_at t n) (\<lambda>node.
       if is_leaf node then Inr n
       else if children node = [] then Inl IndexError
       else leftmost_leaf fuel t (hd (children node)))"

fun leaf_chain :: "nat \<Rightarrow> BPlusTree \<Rightarrow> nat option \<Rightarrow> error + bkey list list" where
  "leaf_chain 0 t no = Inl Diverges"
| "leaf_chain (Suc fuel) t None = Inr []"
| "leaf_chain (Suc fuel) t (Some n) =
     ebind (node_at t n) (\<lambda>node.
       ebind (leaf_chain fuel t (next_leaf node)) (\<lambda>rest. Inr (keys node # rest)))"

definition leaf_keys :: "BPlusTree \<Rightarrow> error + bkey list list" where
  "leaf_keys t =
     ebind (leftmost_leaf (node_count t + 1) t (root t)) (\<lambda>n.
       leaf_chain (node_count t + 1) t (Some n))"

text \<open>Whether a list of keys is in non-decreasing order by the comparison of the keys.\<close>

fun non_decreasing :: "bkey list \<Rightarrow> error + bool" where
  "non_decreasing (a # b # rest) =
     ebind (key_le a b) (\<lambda>ok. if ok then non_decreasing (b # rest) else Inr False)"
| "non_decreasing ks = Inr True"


section \<open>Page states of the buffer pool\<close>

text \<open>The page held under each key of the cache, whatever the order of the nodes.\<close>

definition cache_pages :: "('k, 'v) LRUCache \<Rightarrow> 'k \<rightharpoonup> 'v" where
  "cache_pages c = map_of (map (\<lambda>n. (key n, val n)) (nodes c))"

definition buffer_pages :: "'ix DB \<Rightarrow> page_key \<rightharpoonup> Page" where
  "buffer_pages db = cache_pages (lru_cache db)"



definition is_table_action :: "RedoAction \<Rightarrow> bool" where
  "is_table_action a =
     (a = RedoAction.TABLE_INSERT \<or> a = RedoAction.TABLE_DELETE \<or> a = RedoAction.TABLE_UPDATE)"

definition covered :: "'ix DB \<Rightarrow> RedoRecord \<Rightarrow> nat \<Rightarrow> bool" where
  "covered db r l =
     (is_table_action (action r) \<longrightarrow>
        (\<exists>rel pno sid p. relation r = Some rel \<and> location r = Some (pno, sid)
            \<and> buffer_pages db (rel, pno) = Some p \<and> int l \<le> lsn (page_header p)))"

fun all_covered :: "'ix DB \<Rightarrow> RedoRecord list \<Rightarrow> nat \<Rightarrow> bool" where
  "all_covered db [] l = True"
| "all_covered db (r # rs) l =
     (covered db r (l + len_record r) \<and> all_covered db rs (l + len_record r))"

definition grows :: "'ix DB \<Rightarrow> 'ix DB \<Rightarrow> bool" where
  "grows db db' =
     (\<forall>k p. buffer_pages db k = Some p \<longrightarrow>
        (\<exists>p'. buffer_pages db' k = Some p' \<and> lsn (page_header p) \<le> lsn (page_header p')))"

section \<open>Example states\<close>

text \<open>Concrete inputs for the evaluations below. Every pickled redo record is taken to be
  ten bytes long, so every record occupies eighteen bytes of the log, and index files
  are left alone.\<close>

definition example_dumps :: redo_dumps where
  "example_dumps t = replicate 10 0"

definition example_index_undo :: "unit index_undo" where
  "example_index_undo r ix = Inr ix"

definition empty_db :: "unit DB" where
  "empty_db =
     \<lparr>lru_cache = LRUCache_init 100, dirty_pages = {}, table_files = (\<lambda>t. []),
      redo_file = [], log_buffer = [], write_lsn = 0, flush_lsn = 0,
      undo_files = Map.empty, active_transactions = Map.empty,
      current_xid = 0, thread_xid = None, index_files = ()\<rparr>"

text \<open>A page as written to a table file, holding the single record \<open>[7]\<close>.\<close>

definition page_with_one_record :: Page where
  "page_with_one_record =
     \<lparr>page_header = \<lparr>lsn = 0, flags = 0, reserved = 0, free_space_start = 64,
                      free_space_end = 8191\<rparr>,
      slot_directory = [\<lparr>offset = 0, length_slot = 1, state = NORMAL\<rparr>],
      records = [7]\<rparr>"

text \<open>Transaction 1 deleted the only row of table \<open>t\<close> and then aborted; its undo file and
  the three redo records reached the disk, the pages did not.\<close>

definition db_abort_logged :: "unit DB" where
  "db_abort_logged =
     empty_db
     \<lparr>table_files := (\<lambda>t. if t = ''t'' then [page_with_one_record] else []),
      redo_file :=
        [RedoRecord_new example_dumps 1 RedoAction.BEGIN None None [],
         RedoRecord_new example_dumps 1 RedoAction.TABLE_DELETE (Some ''t'') (Some (0, 0)) [],
         RedoRecord_new example_dumps 1 RedoAction.ABORT None None []],
      undo_files :=
        [1 \<mapsto> [\<lparr>undo_xid = 1, operation = UndoOperation.BEGIN, undo_relation = None,
                  undo_location = None, undo_data = Bytes []\<rparr>,
                 \<lparr>undo_xid = 1, operation = UndoOperation.TABLE_INSERT,
                  undo_relation = Some ''t'', undo_location = Some (0, 0),
                  undo_data = Bytes [7]\<rparr>,
                 \<lparr>undo_xid = 1, operation = UndoOperation.ABORT, undo_relation = None,
                  undo_location = None, undo_data = Bytes []\<rparr>]]\<rparr>"

text \<open>Transaction 1 began, a checkpoint was taken, and then the transaction committed.\<close>

definition db_commit_after_checkpoint :: "unit DB" where
  "db_commit_after_checkpoint =
     empty_db
     \<lparr>redo_file :=
        [RedoRecord_new example_dumps 1 RedoAction.BEGIN None None [],
         RedoRecord_new example_dumps INVALID_XID RedoAction.CHECKPOINT None None [],
         RedoRecord_new example_dumps 1 RedoAction.COMMIT None None []]\<rparr>"


text \<open>Table tuples are taken to be pickled to themselves.\<close>

definition example_pickle :: "byte list Pickle" where
  "example_pickle =
     \<lparr>pickle_redo = example_dumps, tuple_to_bytes = (\<lambda>t. t), pickle_bytes = (\<lambda>b. b),
      loads = (\<lambda>b. b), empty_tuple = []\<rparr>"

text \<open>Table \<open>t\<close> has one page, in the buffer pool and dirty, with one record of 8000 bytes:
  100 more bytes fit, 200 do not. Transaction 1 is running in the current thread.\<close>

definition page_nearly_full :: Page where
  "page_nearly_full =
     \<lparr>page_header = \<lparr>lsn = 0, flags = 0, reserved = 0, free_space_start = 64,
                      free_space_end = 192\<rparr>,
      slot_directory = [\<lparr>offset = 0, length_slot = 8000, state = NORMAL\<rparr>],
      records = replicate 8000 0\<rparr>"

definition db_last_page_full :: "unit DB" where
  "db_last_page_full =
     empty_db
     \<lparr>lru_cache := \<lparr>capacity = 100,
                     nodes = [\<lparr>key = (''t'', 0), val = page_nearly_full, pinned = False\<rparr>],
                     evicted = Map.empty\<rparr>,
      dirty_pages := {(''t'', 0)},
      active_transactions :=
        [1 \<mapsto> [\<lparr>undo_xid = 1, operation = UndoOperation.BEGIN, undo_relation = None,
                  undo_location = None, undo_data = Bytes []\<rparr>]],
      current_xid := 1, thread_xid := Some 1\<rparr>"


text \<open>Operations on an index with one integer column: the key \<open>(k,)\<close> is stored with the
  location \<open>(0, k)\<close>, and a delete names the key only.\<close>

definition insert_key :: "int \<Rightarrow> tree_op" where
  "insert_key k = TreeInsert [Some k] (0, nat k)"

definition delete_key :: "int \<Rightarrow> tree_op" where
  "delete_key k = TreeDelete [Some k] None"

text \<open>Eleven inserts split the root leaf into \<open>[1..5]\<close> and \<open>[6..11]\<close>; the deletes leave
  \<open>[1]\<close>; key 2 walks on to the right leaf; deleting key 1 empties the left leaf; key 3 is
  then put into the empty left leaf.\<close>

definition tree_ops_empty_leaf :: "tree_op list" where
  "tree_ops_empty_leaf =
     map insert_key [1, 2, 3, 4, 5, 6, 7, 8, 9, 10, 11] @
     map delete_key [2, 3, 4, 5] @
     [insert_key 2, delete_key 1, insert_key 3]"





section \<open>Verified properties\<close>

text \<open>
  C4 (amended). \<open>Page.insert\<close> raises the page-full error exactly when the header size plus
  the enlarged slot directory plus the enlarged record region reaches or exceeds the page
  size; on failure the page is left as it was; on success the header is untouched, the record
  is appended to the record region, a slot in state NORMAL pointing to it is appended to the
  directory, and the index of that slot is returned.
\<close>

theorem insert_page_full_iff:
  "(snd (insert_page p r) = Inl PageError \<longleftrightarrow>
      PAGE_SIZE \<le> PageHeader_size + (length (slot_directory p) + 1) * Slot_size
                    + (length (records p) + length r))
   \<and> (snd (insert_page p r) = Inl PageError \<longrightarrow> fst (insert_page p r) = p)
   \<and> (snd (insert_page p r) \<noteq> Inl PageError \<longrightarrow>
        snd (insert_page p r) = Inr (length (slot_directory p))
      \<and> page_header (fst (insert_page p r)) = page_header p
      \<and> records (fst (insert_page p r)) = records p @ r
      \<and> slot_directory (fst (insert_page p r)) =
          slot_directory p @
            [\<lparr>offset = length (records p), length_slot = length r, state = NORMAL\<rparr>])"
  by (simp add: insert_page_def allocate_slot_def total_record_size_def Let_def)

theorem insert_page_full_iff_witness:
  "snd (insert_page Page_init [1, 2, 3]) = Inr 0
   \<and> records (fst (insert_page Page_init [1, 2, 3])) = [1, 2, 3]
   \<and> slot_directory (fst (insert_page Page_init [1, 2, 3])) =
        [\<lparr>offset = 0, length_slot = 3, state = NORMAL\<rparr>]
   \<and> snd (insert_page Page_init (replicate 8128 0)) = Inl PageError
   \<and> fst (insert_page Page_init (replicate 8128 0)) = Page_init"
  using insert_page_full_iff [of Page_init "[1, 2, 3]"]
        insert_page_full_iff [of Page_init "replicate 8128 0"]
  by (simp add: Page_init_def PAGE_SIZE_def PageHeader_size_def Slot_size_def)

theorem insert_page_exact_fit_counterexample:
  "\<not> (snd (insert_page Page_init (replicate 8128 0)) = Inl PageError \<longleftrightarrow>
        PAGE_SIZE < PageHeader_size + (length (slot_directory Page_init) + 1) * Slot_size
                    + (length (records Page_init) + length (replicate 8128 (0 :: byte))))"
  by (simp add: insert_page_def allocate_slot_def total_record_size_def Let_def
        Page_init_def PAGE_SIZE_def PageHeader_size_def Slot_size_def)

text \<open>
  C7. The failing input of the claim: a cache of capacity one whose only entry is pinned.
  \<open>put\<close> of a second key raises nothing; the new, unpinned node is itself the first unpinned
  node of the walk, so it is unlinked and moved to \<open>evicted\<close> as the victim.
\<close>

theorem put_all_pinned_evicts_new_node:
  "put \<lparr>capacity = 1, nodes = [\<lparr>key = (1::nat), val = (10::nat), pinned = True\<rparr>],
        evicted = Map.empty\<rparr> 2 20 =
     (\<lparr>capacity = 1, nodes = [\<lparr>key = 1, val = 10, pinned = True\<rparr>],
       evicted = [2 \<mapsto> 20]\<rparr>, Inr ())"
  by (simp add: put_def in_cache_def remove_node_def)

lemma locks_wf_acquire_once:
  "locks_wf locks \<Longrightarrow> locks_wf (fst (acquire_lock_once locks resource x mode))"
  by (auto simp: locks_wf_def acquire_lock_once_def split: option.splits if_splits)

lemma locks_wf_release:
  "locks_wf locks \<Longrightarrow> locks_wf (release_lock locks resource x)"
  by (auto simp: locks_wf_def release_lock_def Let_def split: option.splits if_splits)

text \<open>
  C8. One attempt grants or denies by the S/X matrix; a denied attempt leaves the lock table
  as it was; a granted attempt records the requester as one more holder of the resource
  (creating the entry in the requested mode when the resource was free, and raising the
  mode to X on an upgrade). \<open>acquire_lock\<close> returns without sleeping when the first attempt
  is granted; after a denial it sleeps \<open>lock_wait_timeout\<close> and makes one second attempt;
  when that one is denied too it sleeps once more and raises \<open>LockConflictError\<close>.
\<close>

theorem acquire_lock_matrix:
  assumes "locks_wf locks"
  shows "(snd (acquire_lock_once locks resource tx mode) \<longleftrightarrow>
           (case locks resource of
              None \<Rightarrow> True
            | Some e \<Rightarrow>
                (case (lock_mode e, mode) of
                   (S, S) \<Rightarrow> True
                 | (S, X) \<Rightarrow> (\<forall>h \<in> set (holders e). h = tx)
                 | (X, S) \<Rightarrow> (\<forall>h \<in> set (holders e). h = tx)
                 | (X, X) \<Rightarrow> False)))
       \<and> (\<not> snd (acquire_lock_once locks resource tx mode) \<longrightarrow>
             fst (acquire_lock_once locks resource tx mode) = locks)
       \<and> (snd (acquire_lock_once locks resource tx mode) \<longrightarrow>
             fst (acquire_lock_once locks resource tx mode) =
               locks(resource \<mapsto>
                 (case locks resource of
                    None \<Rightarrow> \<lparr>lock_mode = mode, holders = [tx]\<rparr>
                  | Some e \<Rightarrow>
                      \<lparr>lock_mode = (if mode = X then X else lock_mode e),
                       holders = holders e @ [tx]\<rparr>)))
       \<and> acquire_lock env locks resource tx mode =
           (case acquire_lock_once locks resource tx mode of
              (l1, True) \<Rightarrow> (l1, 0, Inr ())
            | (l1, False) \<Rightarrow>
                (case acquire_lock_once (env 0 l1) resource tx mode of
                   (l2, True) \<Rightarrow> (l2, lock_wait_timeout, Inr ())
                 | (l2, False) \<Rightarrow>
                     (env 1 l2, 2 * lock_wait_timeout, Inl LockConflictError)))"
proof -
  have ne: "\<And>e. locks resource = Some e \<Longrightarrow> holders e \<noteq> []"
    using assms by (auto simp: locks_wf_def)
  have sole: "\<And>e. locks resource = Some e \<Longrightarrow>
      (set (holders e) = {tx}) = (\<forall>h \<in> set (holders e). h = tx)"
  proof -
    fix e assume "locks resource = Some e"
    then have "holders e \<noteq> []" using ne by simp
    then obtain h hs where "holders e = h # hs" by (cases "holders e") auto
    then show "(set (holders e) = {tx}) = (\<forall>h \<in> set (holders e). h = tx)" by auto
  qed
  have matrix: "snd (acquire_lock_once locks resource tx mode) \<longleftrightarrow>
           (case locks resource of
              None \<Rightarrow> True
            | Some e \<Rightarrow>
                (case (lock_mode e, mode) of
                   (S, S) \<Rightarrow> True
                 | (S, X) \<Rightarrow> (\<forall>h \<in> set (holders e). h = tx)
                 | (X, S) \<Rightarrow> (\<forall>h \<in> set (holders e). h = tx)
                 | (X, X) \<Rightarrow> False))"
    using sole
    by (simp add: acquire_lock_once_def if_only_duplicated_elements_def
          split: option.splits lock_mode.splits)
  have denied: "\<not> snd (acquire_lock_once locks resource tx mode) \<longrightarrow>
             fst (acquire_lock_once locks resource tx mode) = locks"
    by (simp add: acquire_lock_once_def split: option.splits)
  have granted: "snd (acquire_lock_once locks resource tx mode) \<longrightarrow>
             fst (acquire_lock_once locks resource tx mode) =
               locks(resource \<mapsto>
                 (case locks resource of
                    None \<Rightarrow> \<lparr>lock_mode = mode, holders = [tx]\<rparr>
                  | Some e \<Rightarrow>
                      \<lparr>lock_mode = (if mode = X then X else lock_mode e),
                       holders = holders e @ [tx]\<rparr>))"
  proof (cases "locks resource")
    case None
    then show ?thesis by (simp add: acquire_lock_once_def)
  next
    case (Some e)
    then show ?thesis
      by (cases e; cases mode; cases "lock_mode e")
         (simp_all add: acquire_lock_once_def)
  qed
  have retry: "acquire_lock env locks resource tx mode =
           (case acquire_lock_once locks resource tx mode of
              (l1, True) \<Rightarrow> (l1, 0, Inr ())
            | (l1, False) \<Rightarrow>
                (case acquire_lock_once (env 0 l1) resource tx mode of
                   (l2, True) \<Rightarrow> (l2, lock_wait_timeout, Inr ())
                 | (l2, False) \<Rightarrow>
                     (env 1 l2, 2 * lock_wait_timeout, Inl LockConflictError)))"
    by (simp add: acquire_lock_def split: prod.splits bool.splits)
  from matrix denied granted retry show ?thesis by blast
qed

theorem acquire_lock_matrix_witness:
  "locks_wf (Map.empty :: nat \<rightharpoonup> lock_entry)
   \<and> acquire_lock (\<lambda>n l. l) (Map.empty :: nat \<rightharpoonup> lock_entry) 0 1 S
       = ([0 \<mapsto> \<lparr>lock_mode = S, holders = [1]\<rparr>], 0, Inr ())
   \<and> locks_wf [(0::nat) \<mapsto> \<lparr>lock_mode = S, holders = [1]\<rparr>]
   \<and> acquire_lock (\<lambda>n l. l) [(0::nat) \<mapsto> \<lparr>lock_mode = S, holders = [1]\<rparr>] 0 1 X
       = ([0 \<mapsto> \<lparr>lock_mode = X, holders = [1, 1]\<rparr>], 0, Inr ())
   \<and> locks_wf [(0::nat) \<mapsto> \<lparr>lock_mode = X, holders = [1, 1]\<rparr>]
   \<and> acquire_lock (\<lambda>n l. l) [(0::nat) \<mapsto> \<lparr>lock_mode = X, holders = [1, 1]\<rparr>] 0 2 S
       = ([0 \<mapsto> \<lparr>lock_mode = X, holders = [1, 1]\<rparr>], 2, Inl LockConflictError)
   \<and> acquire_lock (\<lambda>n l. l) [(0::nat) \<mapsto> \<lparr>lock_mode = S, holders = [1]\<rparr>] 0 2 X
       = ([0 \<mapsto> \<lparr>lock_mode = S, holders = [1]\<rparr>], 2, Inl LockConflictError)"
proof -
  have wf0: "locks_wf (Map.empty :: nat \<rightharpoonup> lock_entry)"
    by (simp add: locks_wf_def)
  have wf1: "locks_wf [(0::nat) \<mapsto> \<lparr>lock_mode = S, holders = [1]\<rparr>]"
    by (simp add: locks_wf_def)
  have wf2: "locks_wf [(0::nat) \<mapsto> \<lparr>lock_mode = X, holders = [1, 1]\<rparr>]"
    by (simp add: locks_wf_def)
  show ?thesis
    using wf0 wf1 wf2
      acquire_lock_matrix [OF wf0, of 0 1 S "\<lambda>n l. l"]
      acquire_lock_matrix [OF wf1, of 0 1 X "\<lambda>n l. l"]
      acquire_lock_matrix [OF wf2, of 0 2 S "\<lambda>n l. l"]
      acquire_lock_matrix [OF wf1, of 0 2 X "\<lambda>n l. l"]
    by (simp add: acquire_lock_once_def if_only_duplicated_elements_def lock_wait_timeout_def)
qed

text \<open>
  C9. The failing input of the claim: table \<open>t\<close> has the two-column index \<open>ix(a, b)\<close> and the
  predicate is \<open>t.a = 1\<close>. The index is dropped from the candidates, because its second column
  differs from the predicate column, and the planner answers \<open>TableScan\<close>.
\<close>

theorem implement_scan_two_column_index:
  "implement_scan
     [\<lparr>index_name = ''ix'', index_table_name = ''t'', index_columns = [''a'', ''b'']\<rparr>]
     \<lparr>table_name = ''t'', columns = [''a'', ''b'', ''c''],
      condition = Some \<lparr>sign = ''='', left = TableColumn ''t'' ''a'',
                        right = Const (IntValue 1)\<rparr>\<rparr>
   = Inr (TableScan ''t'' (Some \<lparr>sign = ''='', left = TableColumn ''t'' ''a'',
                                  right = Const (IntValue 1)\<rparr>))"
  by (simp add: implement_scan_def candidate_indexes_def)

lemma first_unpinned_snoc: "\<not> pinned n \<Longrightarrow> first_unpinned (ns @ [n]) \<noteq> None"
  by (induction ns) auto

text \<open>The no-space branch of \<open>put\<close> is never taken: the node just added is not pinned.\<close>

lemma put_never_raises: "snd (put c k v) = Inr ()"
proof -
  obtain m1 where m1: "first_unpinned (remove_node k (nodes c) @
      [\<lparr>key = k, val = v, pinned = False\<rparr>]) = Some m1"
    using first_unpinned_snoc [of "\<lparr>key = k, val = v, pinned = False\<rparr>"
        "remove_node k (nodes c)"] by auto
  obtain m2 where m2: "first_unpinned (nodes c @
      [\<lparr>key = k, val = v, pinned = False\<rparr>]) = Some m2"
    using first_unpinned_snoc [of "\<lparr>key = k, val = v, pinned = False\<rparr>" "nodes c"]
    by auto
  show ?thesis
    by (simp add: put_def Let_def m1 m2)
qed

subsection \<open>Slotted page: serialization round trip\<close>

lemma length_le_bytes: "length (le_bytes n v) = n"
  by (induction n arbitrary: v) auto

lemma bytes_to_uint8_le_bytes: "0 \<le> v \<Longrightarrow> bytes_to_uint8 (le_bytes n v) = v mod 256 ^ n"
proof (induction n arbitrary: v)
  case 0
  then show ?case by simp
next
  case (Suc n)
  have "0 \<le> v div 256" using Suc.prems by simp
  then have ih: "bytes_to_uint8 (le_bytes n (v div 256)) = v div 256 mod 256 ^ n"
    by (rule Suc.IH)
  have u: "uint (word_of_int v :: byte) = v mod 256"
    by (simp add: uint_word_of_int)
  have "v mod (256 * 256 ^ n) = 256 * (v div 256 mod 256 ^ n) + v mod 256"
    by (rule zmod_zmult2_eq) simp
  then show ?case
    by (simp add: ih u)
qed

lemma bytes_to_uint8_le_bytes8:
  "0 \<le> v \<Longrightarrow> v < 2 ^ 64 \<Longrightarrow> bytes_to_uint8 (le_bytes 8 v) = v"
  using bytes_to_uint8_le_bytes [of v 8] by simp

lemma uint8_to_bytes_fits: "fits v \<Longrightarrow> uint8_to_bytes v = Inr (le_bytes 8 v)"
  by (simp add: uint8_to_bytes_def fits_def)

lemma length_slot_bytes: "length (slot_bytes s) = 24"
  by (simp add: slot_bytes_def length_le_bytes)

lemma Slot_serialize_fits: "slot_fits s \<Longrightarrow> Slot_serialize s = Inr (slot_bytes s)"
  by (simp add: Slot_serialize_def slot_fits_def slot_bytes_def uint8_to_bytes_fits)

lemma Slot_deserialize_slot_bytes:
  "slot_fits s \<Longrightarrow> Slot_deserialize (slot_bytes s) = Inr s"
  unfolding Slot_deserialize_def slot_fits_def fits_def
  by (simp add: length_slot_bytes Slot_size_def field_at_def slot_bytes_def
      length_le_bytes bytes_to_uint8_le_bytes8)

lemma serialize_slots_fits:
  "\<forall>s \<in> set ss. slot_fits s \<Longrightarrow> serialize_slots ss = Inr (concat (map slot_bytes ss))"
  by (induction ss) (auto simp: Slot_serialize_fits)

lemma length_concat_slot_bytes: "length (concat (map slot_bytes ss)) = 24 * length ss"
  by (induction ss) (auto simp: length_slot_bytes)

lemma deserialize_slots_concat:
  "\<forall>s \<in> set ss. slot_fits s \<Longrightarrow>
   deserialize_slots (pre @ concat (map slot_bytes ss) @ rest)
     (map (\<lambda>i. length pre + i * Slot_size) [0..<length ss]) = Inr ss"
proof (induction ss arbitrary: pre)
  case Nil
  then show ?case by simp
next
  case (Cons s ss)
  have ih: "deserialize_slots ((pre @ slot_bytes s) @ concat (map slot_bytes ss) @ rest)
     (map (\<lambda>i. length (pre @ slot_bytes s) + i * Slot_size) [0..<length ss]) = Inr ss"
    using Cons.prems by (intro Cons.IH) simp
  have m: "map (\<lambda>i. length pre + i * Slot_size) [0..<length (s # ss)] =
      length pre # map (\<lambda>i. length (pre @ slot_bytes s) + i * Slot_size) [0..<length ss]"
    by (simp add: upt_rec [of 0 "Suc (length ss)"] map_Suc_upt [symmetric]
          length_slot_bytes Slot_size_def del: upt_Suc)
  have d: "Slot_deserialize (take Slot_size
       (drop (length pre) (pre @ concat (map slot_bytes (s # ss)) @ rest))) = Inr s"
    using Cons.prems
    by (simp add: Slot_size_def length_slot_bytes Slot_deserialize_slot_bytes)
  show ?case
    unfolding m using ih d by simp
qed

lemma page_inv_init: "page_inv Page_init []"
  by (simp add: page_inv_def Page_init_def PageHeader_init_def PageHeader_size_def
        PAGE_SIZE_def)

lemma page_inv_insert:
  assumes "page_inv p vs" "insert_page p r = (p', Inr sid)"
  shows "page_inv p' (vs @ [r])"
proof -
  let ?n = "length (slot_directory p)"
  from assms(2) have fit: "PageHeader_size + (?n + 1) * Slot_size
        + (length (records p) + length r) < PAGE_SIZE"
    and p': "p' = p\<lparr>slot_directory := slot_directory p @
              [\<lparr>offset = length (records p), length_slot = length r, state = NORMAL\<rparr>],
            records := records p @ r\<rparr>"
    by (auto simp: insert_page_def allocate_slot_def total_record_size_def Let_def
          split: if_splits)
  show ?thesis
    using assms(1) fit unfolding page_inv_def p'
    by (auto simp: nth_append NORMAL_def less_Suc_eq)
qed

lemma page_inv_delete:
  assumes "page_inv p vs"
  shows "page_inv (fst (delete_page p sid)) vs"
  using assms unfolding page_inv_def delete_page_def
  by (auto simp: nth_list_update DEAD_def)

lemma region_other:
  assumes "a + length r \<le> length rs" and "k + n \<le> a \<or> a + length r \<le> k"
  shows "take n (drop k (take a rs @ r @ drop (a + length r) rs)) = take n (drop k rs)"
proof -
  define xs where "xs = take a rs @ r @ drop (a + length r) rs"
  have len: "length xs = length rs"
    using assms(1) by (simp add: xs_def)
  have nth: "xs ! m = rs ! m" if "m < length rs" "m < a \<or> a + length r \<le> m" for m
    using that assms(1) by (auto simp: xs_def nth_append)
  have "take n (drop k xs) = take n (drop k rs)"
  proof (rule nth_equalityI)
    show "length (take n (drop k xs)) = length (take n (drop k rs))"
      by (simp only: length_take length_drop len)
  next
    fix i assume "i < length (take n (drop k xs))"
    then have i: "i < n" "k + i < length rs" using len by auto
    then have "xs ! (k + i) = rs ! (k + i)"
      using assms(2) by (intro nth) auto
    then show "take n (drop k xs) ! i = take n (drop k rs) ! i"
      using i len by simp
  qed
  then show ?thesis by (simp add: xs_def)
qed

lemma page_inv_update_in_place:
  assumes inv: "page_inv p vs" and sid: "sid < length (slot_directory p)"
    and le: "length r \<le> length_slot (slot_directory p ! sid)"
  shows "page_inv
     (p\<lparr>records := take (offset (slot_directory p ! sid)) (records p) @ r @
                    drop (offset (slot_directory p ! sid) + length r) (records p),
        slot_directory := (slot_directory p)
          [sid := (slot_directory p ! sid)\<lparr>length_slot := length r, state := NORMAL\<rparr>]\<rparr>)
     (vs[sid := r])"
proof -
  let ?sl = "slot_directory p"
  let ?a = "offset (?sl ! sid)"
  let ?rs = "records p"
  let ?rs' = "take ?a ?rs @ r @ drop (?a + length r) ?rs"
  have bound: "?a + length r \<le> length ?rs"
    using inv sid le unfolding page_inv_def by (meson add_le_mono1 le_trans nat_add_left_cancel_le)
  have len: "length ?rs' = length ?rs" using bound by simp
  have own: "take (length r) (drop ?a ?rs') = r"
    using bound by simp
  have other: "take (length_slot (?sl ! i)) (drop (offset (?sl ! i)) ?rs') = vs ! i"
    if "i < length ?sl" "i \<noteq> sid" for i
  proof -
    have "offset (?sl ! i) + length_slot (?sl ! i) \<le> ?a
          \<or> ?a + length r \<le> offset (?sl ! i)"
    proof (cases "i < sid")
      case True
      then show ?thesis using inv sid unfolding page_inv_def by auto
    next
      case False
      then have "sid < i" using that by simp
      then have "?a + length_slot (?sl ! sid) \<le> offset (?sl ! i)"
        using inv that unfolding page_inv_def by auto
      then show ?thesis using le by simp
    qed
    then have "take (length_slot (?sl ! i)) (drop (offset (?sl ! i)) ?rs')
        = take (length_slot (?sl ! i)) (drop (offset (?sl ! i)) ?rs)"
      using bound by (intro region_other) auto
    then show ?thesis using inv that unfolding page_inv_def by simp
  qed
  have order: "offset (?sl ! i) + length_slot (?sl ! i) \<le> offset (?sl ! j)"
    if "j < length ?sl" "i < j" for i j
    using inv that unfolding page_inv_def by auto
  show ?thesis
    unfolding page_inv_def
  proof (intro conjI allI impI)
    fix j i
    assume "j < length (slot_directory (p\<lparr>records := ?rs', slot_directory := ?sl
          [sid := (?sl ! sid)\<lparr>length_slot := length r, state := NORMAL\<rparr>]\<rparr>))" "i < j"
    then have ji: "j < length ?sl" "i < j" by auto
    from order [OF ji] le
    show "offset (slot_directory (p\<lparr>records := ?rs', slot_directory := ?sl
          [sid := (?sl ! sid)\<lparr>length_slot := length r, state := NORMAL\<rparr>]\<rparr>) ! i) +
       length_slot (slot_directory (p\<lparr>records := ?rs', slot_directory := ?sl
          [sid := (?sl ! sid)\<lparr>length_slot := length r, state := NORMAL\<rparr>]\<rparr>) ! i)
       \<le> offset (slot_directory (p\<lparr>records := ?rs', slot_directory := ?sl
          [sid := (?sl ! sid)\<lparr>length_slot := length r, state := NORMAL\<rparr>]\<rparr>) ! j)"
      using ji sid by (auto simp: nth_list_update)
  qed (use inv sid le len own other bound in
        \<open>auto simp: page_inv_def nth_list_update NORMAL_def simp del: append_assoc\<close>)
qed

lemma restore_state:
  "sid < length sl \<Longrightarrow>
   (sl[sid := (sl ! sid)\<lparr>state := DEAD\<rparr>])
     [sid := ((sl[sid := (sl ! sid)\<lparr>state := DEAD\<rparr>]) ! sid)\<lparr>state := state (sl ! sid)\<rparr>] = sl"
  by (simp add: list_update_same_conv)

lemma page_inv_update:
  assumes inv: "page_inv p vs"
  shows "page_inv (fst (update_page p sid r)) (written_op p (Update sid r) vs)"
proof (cases "sid < length (slot_directory p)")
  case False
  then show ?thesis using inv by (simp add: update_page_def)
next
  case sid: True
  show ?thesis
  proof (cases "length r \<le> length_slot (slot_directory p ! sid)")
    case True
    then have u: "update_page p sid r =
      (p\<lparr>records := take (offset (slot_directory p ! sid)) (records p) @ r @
                    drop (offset (slot_directory p ! sid) + length r) (records p),
        slot_directory := (slot_directory p)
          [sid := (slot_directory p ! sid)\<lparr>length_slot := length r, state := NORMAL\<rparr>]\<rparr>,
       Inr sid)"
      using sid by (simp add: update_page_def Let_def)
    show ?thesis
      using page_inv_update_in_place [OF inv sid True] by (simp add: u)
  next
    case False
    define p1 where "p1 = p\<lparr>slot_directory :=
        (slot_directory p)[sid := (slot_directory p ! sid)\<lparr>state := DEAD\<rparr>]\<rparr>"
    have d: "delete_page p sid = (p1, Inr True)"
      using sid by (simp add: delete_page_def p1_def)
    have inv1: "page_inv p1 vs"
      using page_inv_delete [OF inv, of sid] by (simp add: d)
    obtain p2 r2 where i: "insert_page p1 r = (p2, r2)"
      by (cases "insert_page p1 r")
    show ?thesis
    proof (cases r2)
      case (Inl e)
      then have same: "p2 = p1"
        using i by (auto simp: insert_page_def split: option.splits)
      have restored: "p1\<lparr>slot_directory := (slot_directory p1)
          [sid := (slot_directory p1 ! sid)\<lparr>state := state (slot_directory p ! sid)\<rparr>]\<rparr> = p"
        using sid by (simp add: p1_def list_update_same_conv)
      have "update_page p sid r = (p, Inl e)"
        using sid False Inl same restored
        by (simp add: update_page_def Let_def d i)
      then show ?thesis using inv by simp
    next
      case (Inr new_sid)
      have n: "new_sid = length (slot_directory p)"
        using Inr i by (auto simp: insert_page_def p1_def split: option.splits)
      have u: "update_page p sid r = (p2, Inr new_sid)"
        using sid False Inr
        by (simp add: update_page_def Let_def d i)
      have "page_inv p2 (vs @ [r])"
        using page_inv_insert [OF inv1] i Inr by simp
      then show ?thesis using u n sid by simp
    qed
  qed
qed

lemma page_inv_apply_op:
  assumes "page_inv p vs"
  shows "page_inv (apply_op p x) (written_op p x vs)"
proof (cases x)
  case (Insert r)
  show ?thesis
  proof (cases "snd (insert_page p r)")
    case (Inl e)
    then have "fst (insert_page p r) = p"
      by (auto simp: insert_page_def split: option.splits)
    then show ?thesis using assms Insert Inl by simp
  next
    case (Inr sid)
    then have "insert_page p r = (fst (insert_page p r), Inr sid)"
      by (metis prod.collapse)
    from page_inv_insert [OF assms this] show ?thesis using Insert Inr by simp
  qed
next
  case (Delete sid)
  then show ?thesis using page_inv_delete [OF assms] by simp
next
  case (Update sid r)
  then show ?thesis using page_inv_update [OF assms] by simp
qed

lemma page_inv_run_ops:
  "page_inv p vs \<Longrightarrow> run_ops p vs xs = (p', vs') \<Longrightarrow> page_inv p' vs'"
proof (induction xs arbitrary: p vs)
  case Nil
  then show ?case by simp
next
  case (Cons x xs)
  from Cons.prems(2) have "run_ops (apply_op p x) (written_op p x vs) xs = (p', vs')"
    by simp
  with page_inv_apply_op [OF Cons.prems(1)] show ?case
    by (rule Cons.IH)
qed

lemma length_header_bytes: "length (header_bytes h) = 40"
  by (simp add: header_bytes_def length_le_bytes)

lemma PageHeader_serialize_fits:
  "header_fits h \<Longrightarrow> PageHeader_serialize h = Inr (header_bytes h)"
  by (simp add: PageHeader_serialize_def header_fits_def header_bytes_def uint8_to_bytes_fits)

lemma PageHeader_deserialize_header_bytes:
  "header_fits h \<Longrightarrow> PageHeader_deserialize (header_bytes h) = Inr h"
  unfolding PageHeader_deserialize_def header_fits_def fits_def
  by (simp add: length_header_bytes PageHeader_size_def field_at_def header_bytes_def
      length_le_bytes bytes_to_uint8_le_bytes8)

lemma range_step_slots:
  "range_step PageHeader_size (PageHeader_size + n * Slot_size) Slot_size =
     map (\<lambda>i. PageHeader_size + i * Slot_size) [0..<n]"
  by (simp add: range_step_def Slot_size_def)

lemma page_roundtrip_aux:
  assumes hf: "header_fits (page_header p)"
    and sf: "\<forall>s \<in> set (slot_directory p). slot_fits s"
    and fss: "free_space_start (page_header p) =
                int (PageHeader_size + length (slot_directory p) * Slot_size)"
    and fse: "free_space_end (page_header p) = int PAGE_SIZE - int (length (records p))"
    and room: "PageHeader_size + length (slot_directory p) * Slot_size + length (records p)
                \<le> PAGE_SIZE"
  shows "\<exists>buff. serialize_page p = Inr buff \<and> length buff = PAGE_SIZE
            \<and> deserialize_page buff = Inr p"
proof -
  define free where "free = PAGE_SIZE - (PageHeader_size + length (slot_directory p) * Slot_size
      + length (records p))"
  define buff where "buff = header_bytes (page_header p) @
      concat (map slot_bytes (slot_directory p)) @ replicate free 0 @ records p"
  have fs: "free_space_end (page_header p) - free_space_start (page_header p) = int free"
    using room by (simp add: fss fse free_def)
  have ser: "serialize_page p = Inr buff"
  proof -
    have "int PAGE_SIZE = int PageHeader_size + int (length (slot_directory p) * Slot_size)
        + int free + int (length (records p))"
      unfolding free_def using room by linarith
    then show ?thesis
      by (simp add: serialize_page_def Let_def fs total_slot_directory_size_def
          total_record_size_def serialize_slots_fits [OF sf]
          PageHeader_serialize_fits [OF hf] buff_def)
  qed
  have len: "length buff = PAGE_SIZE"
    using room
    by (simp add: buff_def length_header_bytes length_concat_slot_bytes free_def
          PageHeader_size_def Slot_size_def)
  have h: "PageHeader_deserialize (take PageHeader_size buff) = Inr (page_header p)"
    by (simp add: buff_def PageHeader_size_def length_header_bytes
          PageHeader_deserialize_header_bytes [OF hf])
  have offs: "range_step PageHeader_size (nat (free_space_start (page_header p))) Slot_size =
      map (\<lambda>i. length (header_bytes (page_header p)) + i * Slot_size)
        [0..<length (slot_directory p)]"
  proof -
    have "nat (free_space_start (page_header p)) =
        PageHeader_size + length (slot_directory p) * Slot_size"
      by (simp only: fss nat_int)
    then show ?thesis
      by (simp only: range_step_slots length_header_bytes) (simp add: PageHeader_size_def)
  qed
  have sl: "deserialize_slots buff
      (range_step PageHeader_size (nat (free_space_start (page_header p))) Slot_size) =
      Inr (slot_directory p)"
    unfolding offs buff_def by (rule deserialize_slots_concat [OF sf])
  have "nat (free_space_end (page_header p)) = PAGE_SIZE - length (records p)"
    by (simp add: fse)
  also have "\<dots> = length (header_bytes (page_header p) @
      concat (map slot_bytes (slot_directory p)) @ replicate free 0)"
    using room
    by (simp add: length_header_bytes length_concat_slot_bytes free_def
          PageHeader_size_def Slot_size_def)
  finally have rec: "drop (nat (free_space_end (page_header p))) buff = records p"
    by (simp add: buff_def)
  have "deserialize_page buff = Inr p"
    by (simp add: deserialize_page_def h sl rec)
  with ser len show ?thesis by blast
qed

text \<open>
  C5. Let \<open>p\<close> be the page built from an empty page by any sequence of insert, delete and
  update operations, and let its header be set by \<open>set_header\<close> with an lsn that fits the
  eight-byte header field. Then \<open>serialize\<close> succeeds with a buffer of one page size,
  \<open>deserialize\<close> of that buffer succeeds with a page whose header, slot directory and record
  region equal those of the page, and \<open>select\<close> on every NORMAL slot of the page read back
  returns the bytes last written for that slot.
\<close>

theorem page_roundtrip:
  assumes "0 \<le> l" and "l < 2 ^ 64" and "run_ops Page_init [] ops = (p, vs)"
  shows "\<exists>buff P'. serialize_page (set_header p l) = Inr buff
           \<and> length buff = PAGE_SIZE
           \<and> deserialize_page buff = Inr P'
           \<and> page_header P' = page_header (set_header p l)
           \<and> slot_directory P' = slot_directory p
           \<and> records P' = records p
           \<and> (\<forall>sid < length (slot_directory P').
                 state (slot_directory P' ! sid) = NORMAL \<longrightarrow>
                 select_page P' sid = Inr (vs ! sid))"
proof -
  have inv: "page_inv p vs"
    using page_inv_init assms(3) by (rule page_inv_run_ops)
  let ?P = "set_header p l"
  have small: "PageHeader_size + length (slot_directory p) * Slot_size + length (records p)
      < PAGE_SIZE"
    using inv by (simp add: page_inv_def)
  define k where "k = PageHeader_size + length (slot_directory p) * Slot_size"
  have k: "k < 8192" and r: "length (records p) < 8192"
    using small by (simp_all add: PAGE_SIZE_def k_def)
  then have "int k < 2 ^ 64" "0 \<le> int PAGE_SIZE - int (length (records p))"
    "int PAGE_SIZE - int (length (records p)) < 2 ^ 64"
    by (simp_all add: PAGE_SIZE_def)
  then have hf: "header_fits (page_header ?P)"
    using inv assms(1,2)
    by (simp add: header_fits_def fits_def set_header_def page_inv_def
          total_slot_directory_size_def k_def [symmetric])
  have sf: "\<forall>s \<in> set (slot_directory ?P). slot_fits s"
  proof
    fix s assume "s \<in> set (slot_directory ?P)"
    then obtain i where i: "i < length (slot_directory p)" "s = slot_directory p ! i"
      by (auto simp: set_header_def in_set_conv_nth)
    then have "offset s + length_slot s \<le> length (records p)" "state s \<le> 2"
      using inv by (auto simp: page_inv_def)
    then show "slot_fits s"
      using small by (simp add: slot_fits_def fits_def PAGE_SIZE_def)
  qed
  have "\<exists>buff. serialize_page ?P = Inr buff \<and> length buff = PAGE_SIZE
            \<and> deserialize_page buff = Inr ?P"
    using small
    by (intro page_roundtrip_aux [OF hf sf])
       (simp_all add: set_header_def total_slot_directory_size_def)
  then obtain buff where b: "serialize_page ?P = Inr buff" "length buff = PAGE_SIZE"
    "deserialize_page buff = Inr ?P" by blast
  have sel: "\<forall>sid < length (slot_directory ?P).
      state (slot_directory ?P ! sid) = NORMAL \<longrightarrow> select_page ?P sid = Inr (vs ! sid)"
    using inv by (simp add: select_page_def set_header_def page_inv_def)
  have "slot_directory ?P = slot_directory p" "records ?P = records p"
    by (simp_all add: set_header_def)
  with b sel show ?thesis by blast
qed

theorem page_roundtrip_witness:
  "run_ops Page_init [] [Insert [1, 2, 3], Insert [4, 5], Update 0 [9], Delete 1, Update 1 [6, 7, 8]]
     = (\<lparr>page_header = PageHeader_init,
         slot_directory = [\<lparr>offset = 0, length_slot = 1, state = NORMAL\<rparr>,
                           \<lparr>offset = 3, length_slot = 2, state = DEAD\<rparr>,
                           \<lparr>offset = 5, length_slot = 3, state = NORMAL\<rparr>],
         records = [9, 2, 3, 4, 5, 6, 7, 8]\<rparr>,
        [[9], [4, 5], [6, 7, 8]])
   \<and> (\<exists>buff P'. serialize_page (set_header
           \<lparr>page_header = PageHeader_init,
            slot_directory = [\<lparr>offset = 0, length_slot = 1, state = NORMAL\<rparr>,
                              \<lparr>offset = 3, length_slot = 2, state = DEAD\<rparr>,
                              \<lparr>offset = 5, length_slot = 3, state = NORMAL\<rparr>],
            records = [9, 2, 3, 4, 5, 6, 7, 8]\<rparr> 7) = Inr buff
         \<and> deserialize_page buff = Inr P'
         \<and> select_page P' 0 = Inr [9] \<and> select_page P' 2 = Inr [6, 7, 8])"
proof -
  have run: "run_ops Page_init []
       [Insert [1, 2, 3], Insert [4, 5], Update 0 [9], Delete 1, Update 1 [6, 7, 8]]
     = (\<lparr>page_header = PageHeader_init,
         slot_directory = [\<lparr>offset = 0, length_slot = 1, state = NORMAL\<rparr>,
                           \<lparr>offset = 3, length_slot = 2, state = DEAD\<rparr>,
                           \<lparr>offset = 5, length_slot = 3, state = NORMAL\<rparr>],
         records = [9, 2, 3, 4, 5, 6, 7, 8]\<rparr>,
        [[9], [4, 5], [6, 7, 8]])"
    by (simp add: Page_init_def insert_page_def update_page_def delete_page_def
          allocate_slot_def total_record_size_def Let_def PAGE_SIZE_def PageHeader_size_def
          Slot_size_def NORMAL_def DEAD_def UNUSED_def)
  have l: "(0::int) \<le> 7" "(7::int) < 2 ^ 64" by simp_all
  from page_roundtrip [OF l run] obtain buff P' where
    "serialize_page (set_header
           \<lparr>page_header = PageHeader_init,
            slot_directory = [\<lparr>offset = 0, length_slot = 1, state = NORMAL\<rparr>,
                              \<lparr>offset = 3, length_slot = 2, state = DEAD\<rparr>,
                              \<lparr>offset = 5, length_slot = 3, state = NORMAL\<rparr>],
            records = [9, 2, 3, 4, 5, 6, 7, 8]\<rparr> 7) = Inr buff"
    "deserialize_page buff = Inr P'"
    "slot_directory P' = [\<lparr>offset = 0, length_slot = 1, state = NORMAL\<rparr>,
                           \<lparr>offset = 3, length_slot = 2, state = DEAD\<rparr>,
                           \<lparr>offset = 5, length_slot = 3, state = NORMAL\<rparr>]"
    "\<forall>sid < length (slot_directory P').
                 state (slot_directory P' ! sid) = NORMAL \<longrightarrow>
                 select_page P' sid = Inr ([[9], [4, 5], [6, 7, 8]] ! sid)"
    by auto
  then have "select_page P' 0 = Inr [9]" "select_page P' 2 = Inr [6, 7, 8]"
    by (auto simp: NORMAL_def)
  with run \<open>serialize_page _ = Inr buff\<close> \<open>deserialize_page buff = Inr P'\<close>
  show ?thesis by blast
qed

subsection \<open>Recovery\<close>

lemma ebind_Inr_iff: "ebind m f = Inr y \<longleftrightarrow> (\<exists>x. m = Inr x \<and> f x = Inr y)"
  by (cases m) (auto simp: ebind_def)

lemma ebind_simps: "ebind (Inl e) f = Inl e" "ebind (Inr x) f = f x"
  by (simp_all add: ebind_def)

lemma replay_zero: "replay rs 0 = Inr rs"
  by (cases rs) auto

lemma len_record_pos: "0 < len_record r"
  by (simp add: len_record_def)

lemma replay_skip: "replay (xs @ ys) (sum_list (map len_record xs)) = Inr ys"
proof (induction xs)
  case Nil
  then show ?case by (simp add: replay_zero)
next
  case (Cons x xs)
  have "len_record x + sum_list (map len_record xs) \<noteq> 0"
    using len_record_pos [of x] by simp
  then show ?case using Cons by simp
qed

lemma find_checkpoint_append:
  "find_checkpoint (xs @ ys) rl cl =
     find_checkpoint ys (rl + sum_list (map len_record xs)) (find_checkpoint xs rl cl)"
  by (induction xs arbitrary: rl cl) (auto simp: Let_def add.assoc)

lemma find_checkpoint_none:
  "\<forall>r \<in> set ys. action r \<noteq> RedoAction.CHECKPOINT \<Longrightarrow> find_checkpoint ys rl cl = cl"
  by (induction ys arbitrary: rl) (auto simp: Let_def)

lemma find_checkpoint_last:
  assumes "action chk = RedoAction.CHECKPOINT"
    and "\<forall>r \<in> set ys. action r \<noteq> RedoAction.CHECKPOINT"
  shows "find_checkpoint (xs @ [chk] @ ys) 0 0 = sum_list (map len_record (xs @ [chk]))"
proof -
  have "find_checkpoint (xs @ [chk] @ ys) 0 0 =
      find_checkpoint ([chk] @ ys) (sum_list (map len_record xs)) (find_checkpoint xs 0 0)"
    by (simp add: find_checkpoint_append)
  also have "\<dots> = sum_list (map len_record xs) + len_record chk"
    using assms by (simp add: Let_def find_checkpoint_none)
  finally show ?thesis by simp
qed

lemma replay_loop_append:
  "replay_loop iu db (xs @ ys) rl txs =
     ebind (replay_loop iu db xs rl txs)
       (\<lambda>(db', txs'). replay_loop iu db' ys (rl + sum_list (map len_record xs)) txs')"
proof (induction xs arbitrary: db rl txs)
  case Nil
  then show ?case by (simp add: ebind_simps)
next
  case (Cons x xs)
  show ?case
  proof (cases "replay_one iu db x (rl + len_record x) txs")
    case (Inl e)
    then show ?thesis by (simp add: ebind_simps)
  next
    case (Inr p)
    then show ?thesis
      by (cases p) (simp add: ebind_simps Cons.IH add.assoc)
  qed
qed

lemma replay_one_transactions:
  assumes "replay_one iu db r l txs = Inr (db', txs')"
  shows "set txs' \<subseteq> set txs \<union> (if action r = RedoAction.BEGIN then {xid r} else {})"
  using assms
  by (cases "action r")
     (auto simp: replay_one_def ebind_Inr_iff split: if_splits
        dest: set_remove1_subset [THEN subsetD])

lemma replay_loop_transactions:
  "replay_loop iu db rs l txs = Inr (db', txs') \<Longrightarrow>
   set txs' \<subseteq> set txs \<union> {xid r | r. r \<in> set rs \<and> action r = RedoAction.BEGIN}"
proof (induction rs arbitrary: db l txs)
  case Nil
  then show ?case by simp
next
  case (Cons r rs)
  from Cons.prems obtain db1 txs1 where
    one: "replay_one iu db r (l + len_record r) txs = Inr (db1, txs1)"
    and rest: "replay_loop iu db1 rs (l + len_record r) txs1 = Inr (db', txs')"
    by (auto simp: ebind_Inr_iff)
  from replay_one_transactions [OF one] Cons.IH [OF rest]
  show ?case by (auto split: if_splits)
qed

lemma replay_one_commit_absent:
  "action c = RedoAction.COMMIT \<Longrightarrow> xid c \<notin> set txs \<Longrightarrow>
   replay_one iu db c l txs = Inl ValueError"
  by (simp add: replay_one_def)


text \<open>
  C10. Let the redo log hold a COMMIT record after its last CHECKPOINT record, with no BEGIN
  record of the same transaction between the two (the transaction began before the
  checkpoint). Replaying that COMMIT with the transaction absent from the in-flight list
  raises \<open>ValueError\<close> from the list removal, and \<open>recovery\<close> ends with an exception
  instead of completing.
\<close>

theorem recovery_commit_without_begin:
  assumes log: "redo_file db = before @ [chk] @ pre @ [c] @ post"
    and chk: "action chk = RedoAction.CHECKPOINT"
    and nochk: "\<forall>r \<in> set (pre @ [c] @ post). action r \<noteq> RedoAction.CHECKPOINT"
    and c: "action c = RedoAction.COMMIT"
    and nobegin: "\<forall>r \<in> set pre. action r = RedoAction.BEGIN \<longrightarrow> xid r \<noteq> xid c"
  shows "(\<forall>db' l transactions. xid c \<notin> set transactions \<longrightarrow>
            replay_one index_undo db' c l transactions = Inl ValueError)
       \<and> (\<exists>e. recovery_replay index_undo db = Inl e)
       \<and> (\<exists>e. recovery dumps index_undo db = Inl e)"
proof -
  define cl where "cl = sum_list (map len_record (before @ [chk]))"
  define db1 where "db1 = db\<lparr>flush_lsn := sum_list (map len_record (redo_file db)),
      write_lsn := sum_list (map len_record (redo_file db))\<rparr>"
  have cp: "find_checkpoint (redo_file db) 0 0 = cl"
    unfolding log cl_def using chk nochk by (intro find_checkpoint_last) auto
  have rp: "replay (redo_file db) cl = Inr (pre @ [c] @ post)"
    using replay_skip [of "before @ [chk]" "pre @ [c] @ post"] by (simp add: log cl_def)
  have rr: "recovery_replay index_undo db = replay_loop index_undo db1 (pre @ [c] @ post) cl []"
    by (simp add: recovery_replay_def Let_def replay_zero ebind_simps cp rp db1_def)
  have loop: "\<exists>e. replay_loop index_undo db1 (pre @ [c] @ post) cl [] = Inl e"
  proof (cases "replay_loop index_undo db1 pre cl []")
    case (Inl e)
    then show ?thesis by (simp add: replay_loop_append ebind_simps)
  next
    case (Inr p)
    obtain db2 txs where p: "p = (db2, txs)" by (cases p)
    from replay_loop_transactions [OF Inr [unfolded p]] nobegin
    have "xid c \<notin> set txs" by fastforce
    then have "replay_one index_undo db2 c (cl + sum_list (map len_record pre) + len_record c)
        txs = Inl ValueError"
      using c by (intro replay_one_commit_absent)
    then show ?thesis
      using Inr p by (simp add: replay_loop_append [of _ _ pre] ebind_simps)
  qed
  have one: "\<forall>db' l transactions. xid c \<notin> set transactions \<longrightarrow>
            replay_one index_undo db' c l transactions = Inl ValueError"
    using c by (simp add: replay_one_commit_absent)
  from loop obtain e where "recovery_replay index_undo db = Inl e" using rr by auto
  then have "recovery_replay index_undo db = Inl e" "recovery dumps index_undo db = Inl e"
    by (simp_all add: recovery_def ebind_simps)
  with one show ?thesis by blast
qed

theorem recovery_commit_without_begin_witness:
  "redo_file db_commit_after_checkpoint =
     [RedoRecord_new example_dumps 1 RedoAction.BEGIN None None []] @
     [RedoRecord_new example_dumps INVALID_XID RedoAction.CHECKPOINT None None []] @ [] @
     [RedoRecord_new example_dumps 1 RedoAction.COMMIT None None []] @ []
   \<and> (\<exists>e. recovery example_dumps example_index_undo db_commit_after_checkpoint = Inl e)"
proof -
  have log: "redo_file db_commit_after_checkpoint =
     [RedoRecord_new example_dumps 1 RedoAction.BEGIN None None []] @
     [RedoRecord_new example_dumps INVALID_XID RedoAction.CHECKPOINT None None []] @ [] @
     [RedoRecord_new example_dumps 1 RedoAction.COMMIT None None []] @ []"
    by (simp add: db_commit_after_checkpoint_def)
  have "\<exists>e. recovery example_dumps example_index_undo db_commit_after_checkpoint = Inl e"
    using recovery_commit_without_begin [OF log, of example_index_undo example_dumps]
    by (simp add: RedoRecord_new_def)
  with log show ?thesis by blast
qed

text \<open>
  C1. The failing input of the claim: the redo log after the last checkpoint is BEGIN,
  TABLE\_DELETE and ABORT of transaction 1. When the replay has gone through the log,
  transaction 1 is still in the in-flight list although its ABORT record was replayed and
  its undo applied (the deleted row is back in slot 1); the end-of-recovery pass then aborts
  it again and applies the undo a second time (the row is there twice, in slots 1 and 2).
\<close>

theorem recovery_abort_undone_twice:
  "(case recovery_replay example_index_undo db_abort_logged of
      Inl e \<Rightarrow> False
    | Inr (db, transactions) \<Rightarrow>
        transactions = [1]
        \<and> map (\<lambda>n. slot_directory (val n)) (nodes (lru_cache db)) =
            [[\<lparr>offset = 0, length_slot = 1, state = DEAD\<rparr>,
              \<lparr>offset = 1, length_slot = 1, state = NORMAL\<rparr>]])
   \<and> (case recovery example_dumps example_index_undo db_abort_logged of
        Inl e \<Rightarrow> False
      | Inr db \<Rightarrow>
          map (\<lambda>n. slot_directory (val n)) (nodes (lru_cache db)) =
            [[\<lparr>offset = 0, length_slot = 1, state = DEAD\<rparr>,
              \<lparr>offset = 1, length_slot = 1, state = NORMAL\<rparr>,
              \<lparr>offset = 2, length_slot = 1, state = NORMAL\<rparr>]]
          \<and> map action (log_buffer db) = [RedoAction.ABORT])"
  by code_simp

subsection \<open>Heap access\<close>

lemma filter_insert_set:
  "Set.filter P (insert x A) = (if P x then insert x (Set.filter P A) else Set.filter P A)"
  by auto

lemma filter_empty_set: "Set.filter P {} = {}"
  by auto

lemmas heap_eval_defs = table_tuple_insert_one_def table_tuple_allocate_page_def
  table_tuple_get_last_pageno_def table_tuple_get_pages_def table_tuple_get_disk_pages_def
  find_max_pageno_def table_tuple_get_page_def buffer_get_def buffer_put_def get_def put_def
  in_cache_def remove_node_def mark_dirty_def store_page_def modify_page_def write_logs_def
  undo_write_def redo_write_def redo_flush_def RedoRecord_new_def len_record_def
  session_xid_def insert_page_def allocate_slot_def total_record_size_def set_header_def
  total_slot_directory_size_def PAGE_SIZE_def PageHeader_size_def Slot_size_def
  REDOLOG_BUFFER_SIZE_def ebind_def Let_def
  db_last_page_full_def empty_db_def page_nearly_full_def example_pickle_def example_dumps_def
  LRUCache_init_def filter_insert_set filter_empty_set NORMAL_def UNUSED_def

text \<open>\<open>table_tuple_allocate_page\<close> fetches the page it already has as the last one, so the
  number of the last page stays what it was and the assertion that it grew by one fails:
  the function never returns.\<close>

lemma buffer_put_effect:
  "buffer_put db k page = Inr db' \<Longrightarrow>
   table_files db' = table_files db \<and> dirty_pages db' = dirty_pages db"
  by (auto simp: buffer_put_def split: prod.splits sum.splits)

lemma mark_dirty_effect:
  "mark_dirty db k = Inr db' \<Longrightarrow>
   table_files db' = table_files db \<and> dirty_pages db' = insert k (dirty_pages db)"
  by (auto simp: mark_dirty_def split: if_splits)

lemma buffer_get_effect:
  "buffer_get db k = (db', v) \<Longrightarrow>
   table_files db' = table_files db \<and> dirty_pages db' = dirty_pages db"
  by (auto simp: buffer_get_def split: prod.splits)

lemma get_page_effect:
  assumes "table_tuple_get_page db t n = Inr (db1, po)"
  shows "table_files db1 = table_files db
     \<and> (dirty_pages db1 = dirty_pages db \<or> dirty_pages db1 = insert (t, n) (dirty_pages db))"
proof -
  from assms obtain db' where
    pre: "(if \<not> in_cache (lru_cache db) (t, n) then
              (if n < table_tuple_get_disk_pages db t then
                 buffer_put db (t, n) (table_files db t ! n)
               else ebind (buffer_put db (t, n) Page_init) (\<lambda>db'. mark_dirty db' (t, n)))
            else Inr db) = Inr db'"
    and g: "buffer_get db' (t, n) = (db1, po)"
    by (auto simp: table_tuple_get_page_def Let_def ebind_Inr_iff)
  have "table_files db' = table_files db
     \<and> (dirty_pages db' = dirty_pages db \<or> dirty_pages db' = insert (t, n) (dirty_pages db))"
  proof (cases "in_cache (lru_cache db) (t, n)")
    case True
    then show ?thesis using pre by simp
  next
    case False
    show ?thesis
    proof (cases "n < table_tuple_get_disk_pages db t")
      case True
      then have "buffer_put db (t, n) (table_files db t ! n) = Inr db'"
        using pre False by simp
      from buffer_put_effect [OF this] show ?thesis by simp
    next
      case nd: False
      from pre False nd obtain db2 where
        "buffer_put db (t, n) Page_init = Inr db2" "mark_dirty db2 (t, n) = Inr db'"
        by (auto simp: ebind_Inr_iff)
      then show ?thesis
        using buffer_put_effect [of db "(t, n)" Page_init db2]
          mark_dirty_effect [of db2 "(t, n)" db'] by simp
    qed
  qed
  then show ?thesis using buffer_get_effect [OF g] by auto
qed

lemma last_pageno_after_insert:
  assumes fin: "finite (dirty_pages db)"
    and files: "table_files db1 = table_files db"
    and dirty: "dirty_pages db1 = insert (t, nat (table_tuple_get_last_pageno db t)) (dirty_pages db)"
  shows "table_tuple_get_last_pageno db1 t = table_tuple_get_last_pageno db t"
proof -
  define D where "D = snd ` Set.filter (\<lambda>k. fst k = t) (dirty_pages db)"
  define disk where "disk = int (length (table_files db t))"
  define p where "p = table_tuple_get_last_pageno db t"
  have finD: "finite D" using fin by (simp add: D_def)
  have p0: "0 \<le> p" by (simp add: p_def table_tuple_get_last_pageno_def)
  have "Set.filter (\<lambda>k. fst k = t) (dirty_pages db1) =
      insert (t, nat p) (Set.filter (\<lambda>k. fst k = t) (dirty_pages db))"
    by (auto simp: dirty p_def)
  then have D1: "snd ` Set.filter (\<lambda>k. fst k = t) (dirty_pages db1) = insert (nat p) D"
    by (simp add: D_def)
  have F: "find_max_pageno db t = (if D = {} then - 1 else int (Max D))"
    by (simp only: find_max_pageno_def D_def Let_def)
  have F1: "find_max_pageno db1 t = int (Max (insert (nat p) D))"
    by (simp only: find_max_pageno_def D1 Let_def) simp
  have pdef: "p = max (max (find_max_pageno db t + 1) disk - 1) 0"
    by (simp add: p_def table_tuple_get_last_pageno_def table_tuple_get_pages_def
          table_tuple_get_disk_pages_def disk_def Let_def)
  have p1: "table_tuple_get_last_pageno db1 t =
      max (max (find_max_pageno db1 t + 1) disk - 1) 0"
    by (simp add: table_tuple_get_last_pageno_def table_tuple_get_pages_def
          table_tuple_get_disk_pages_def disk_def Let_def files)
  have disk0: "0 \<le> disk" by (simp add: disk_def)
  show ?thesis
  proof (cases "D = {}")
    case True
    then have "find_max_pageno db1 t = p" using F1 p0 by simp
    moreover have "p = max (disk - 1) 0" using pdef F True disk0 by simp
    ultimately show ?thesis unfolding p1 p_def [symmetric] using disk0 by linarith
  next
    case False
    then have m: "Max (insert (nat p) D) = max (nat p) (Max D)"
      using finD by simp
    have "int (Max D) \<le> p" using pdef F False by simp
    then have "find_max_pageno db1 t = p" using F1 m p0 by simp
    moreover have "p = max (int (Max D) + 1) disk - 1" using pdef F False by simp
    ultimately show ?thesis unfolding p1 p_def [symmetric] by linarith
  qed
qed

lemma allocate_page_never_returns:
  assumes "finite (dirty_pages db)"
  shows "table_tuple_allocate_page db t \<noteq> Inr r"
proof
  assume "table_tuple_allocate_page db t = Inr r"
  then obtain db1 po where
    g: "table_tuple_get_page db t (nat (table_tuple_get_last_pageno db t)) = Inr (db1, po)"
    and n: "table_tuple_get_last_pageno db1 t = table_tuple_get_last_pageno db t + 1"
    by (auto simp: table_tuple_allocate_page_def Let_def ebind_Inr_iff split: if_splits)
  from get_page_effect [OF g] have files: "table_files db1 = table_files db"
    and dirty: "dirty_pages db1 = dirty_pages db \<or>
       dirty_pages db1 = insert (t, nat (table_tuple_get_last_pageno db t)) (dirty_pages db)"
    by auto
  from dirty have "table_tuple_get_last_pageno db1 t = table_tuple_get_last_pageno db t"
  proof
    assume "dirty_pages db1 = dirty_pages db"
    then show ?thesis
      by (simp add: table_tuple_get_last_pageno_def table_tuple_get_pages_def
          table_tuple_get_disk_pages_def find_max_pageno_def files)
  next
    assume "dirty_pages db1 = insert (t, nat (table_tuple_get_last_pageno db t)) (dirty_pages db)"
    with assms files show ?thesis by (rule last_pageno_after_insert)
  qed
  with n show False by simp
qed

text \<open>
  C3. The failing input of the claim: \<open>table_tuple_insert_one\<close> when the last page of the
  table has no room for the tuple. The fallback path raises \<open>AssertionError\<close> in
  \<open>table_tuple_allocate_page\<close> and returns nothing. On the same state a tuple that fits is
  inserted into the page, logged with one undo and one redo record, and the page is stamped
  with the lsn returned by the redo log and is dirty.
\<close>

theorem table_tuple_insert_one_page_full:
  "(case table_tuple_insert_one example_pickle db_last_page_full ''t'' (replicate 200 1) of
      Inl e \<Rightarrow> e = AssertionError
    | Inr r \<Rightarrow> False)
   \<and> (case table_tuple_insert_one example_pickle db_last_page_full ''t'' (replicate 100 1) of
        Inl e \<Rightarrow> False
      | Inr (db, loc) \<Rightarrow>
          loc = (0, 1) \<and> write_lsn db = 18
          \<and> map (\<lambda>n. lsn (page_header (val n))) (nodes (lru_cache db)) = [18]
          \<and> map action (log_buffer db) = [RedoAction.TABLE_INSERT]
          \<and> map_option (map operation) (active_transactions db 1) =
              Some [UndoOperation.BEGIN, UndoOperation.TABLE_DELETE]
          \<and> (''t'', 0) \<in> dirty_pages db)"
  by (simp add: heap_eval_defs)

subsection \<open>B+ tree\<close>

text \<open>
  C6. The failing input of the claim: on a new tree, insert the keys 1 to 11, delete 2, 3, 4
  and 5, insert 2, delete 1, insert 3. All operations succeed, and the leaves in \<open>next_leaf\<close>
  order then hold the keys 3 and after it 2, 6, 7, 8, 9, 10, 11, which is not a
  non-decreasing sequence.
\<close>

theorem leaves_out_of_order_after_delete:
  "(case run_tree_ops BPlusTree_init tree_ops_empty_leaf of
      Inl e \<Rightarrow> False
    | Inr t \<Rightarrow>
        leaf_keys t =
          Inr [[[Some 3]],
               [[Some 2], [Some 6], [Some 7], [Some 8], [Some 9], [Some 10], [Some 11]]]
        \<and> ebind (leaf_keys t) (\<lambda>ks. non_decreasing (concat ks)) = Inr False)"
  by code_simp

subsection \<open>Recovery run twice\<close>







lemma set_keys_remove_node:
  "node \<in> set ns \<Longrightarrow> key node = k \<Longrightarrow>
   set (map key (remove_node k ns @ [node])) = set (map key ns)"
  by (auto simp: remove_node_def)















lemma covered_grows:
  assumes "covered db r l" "grows db db'"
  shows "covered db' r l"
  unfolding covered_def
proof
  assume "is_table_action (action r)"
  then obtain rel pno sid p where rl: "relation r = Some rel" "location r = Some (pno, sid)"
    and p: "buffer_pages db (rel, pno) = Some p" "int l \<le> lsn (page_header p)"
    using assms(1) unfolding covered_def by blast
  from p(1) obtain p' where "buffer_pages db' (rel, pno) = Some p'"
    "lsn (page_header p) \<le> lsn (page_header p')"
    using assms(2) unfolding grows_def by blast
  with rl p(2)
  show "\<exists>rel pno sid p. relation r = Some rel \<and> location r = Some (pno, sid)
      \<and> buffer_pages db' (rel, pno) = Some p \<and> int l \<le> lsn (page_header p)"
    by auto
qed












lemma buffer_pages_current_xid [simp]:
  "buffer_pages (db\<lparr>current_xid := x\<rparr>) = buffer_pages db"
  by (simp add: buffer_pages_def)





lemma all_covered_grows:
  "all_covered db rs l \<Longrightarrow> grows db db' \<Longrightarrow> all_covered db' rs l"
proof (induction rs arbitrary: l)
  case Nil
  then show ?case by simp
next
  case (Cons r rs)
  from Cons.prems have "covered db r (l + len_record r)" "all_covered db rs (l + len_record r)"
    by simp_all
  then have "covered db' r (l + len_record r)" "all_covered db' rs (l + len_record r)"
    using Cons.prems(2) Cons.IH covered_grows by blast+
  then show ?case by simp
qed



lemma buffer_pages_lsn_fields [simp]:
  "buffer_pages (db\<lparr>flush_lsn := a, write_lsn := b\<rparr>) = buffer_pages db"
  by (simp add: buffer_pages_def)


text \<open>The same happens for a transaction whose ABORT record is in the replayed log: each
  recovery undoes it again.\<close>

lemma recovery_twice_abort_logged:
  "map_option (\<lambda>p. length (slot_directory p))
        (buffer_pages (projr (recovery example_dumps example_index_undo db_abort_logged))
           (''t'', 0)) = Some 3
   \<and> map_option (\<lambda>p. length (slot_directory p))
        (buffer_pages
           (projr (recovery example_dumps example_index_undo
              (projr (recovery example_dumps example_index_undo db_abort_logged))))
           (''t'', 0)) = Some 5"
  by code_simp




end
